theory Spec2Isabelle
  imports Complex_Main "HOL-Library.Sublist" "HOL-Library.Multiset"
begin

section \<open>Hybrid rank-fusion search (semantic-search.ts)\<close>

text \<open>
  A shallow embedding of \<^verbatim>\<open>hybridSearchWithRRF\<close> and \<^verbatim>\<open>vectorSearch\<close>.

  A JavaScript \<^verbatim>\<open>number\<close> is modelled as an exact rational: the finite values, with
  IEEE rounding left out. \<^verbatim>\<open>Infinity\<close> and \<^verbatim>\<open>NaN\<close> have no counterpart, so a statement
  about the value of a quotient \<^verbatim>\<open>1 / d\<close> carries the side condition that \<open>d\<close> is not
  zero (JavaScript yields \<^verbatim>\<open>Infinity\<close> there, HOL yields \<open>0\<close>); with the default
  \<open>k = 60\<close>, and with any \<open>k > -1\<close>, no denominator \<open>k + index + 1\<close> is zero.
\<close>

type_synonym number = rat

subsection \<open>Data model\<close>

record SearchOptions =
  limit :: "number option"
  minSimilarity :: "number option"
  entityTypes :: "string list option"
  hybridSearch :: "bool option"
  rrfK :: "number option"

text \<open>The rows of the vector statement and of the keyword statement.\<close>

record VectorRow =
  v_id :: string
  v_entityType :: string
  v_vectorScore :: number

record KeywordRow =
  k_id :: string
  k_entityType :: string
  k_bm25Score :: number

text \<open>The value type of the \<^verbatim>\<open>rrfScores\<close> map.\<close>

record RrfEntry =
  score :: number
  r_entityType :: string
  vectorScore :: "number option"
  bm25Score :: "number option"

subsection \<open>The JavaScript Map\<close>

text \<open>
  A \<^verbatim>\<open>Map\<close> iterates in insertion order, and \<^verbatim>\<open>set\<close> on a key that is present
  replaces the value where the key stands: an association list with update in place.
\<close>

type_synonym ('k, 'v) jsmap = "('k \<times> 'v) list"

fun Map_set :: "'k \<Rightarrow> 'v \<Rightarrow> ('k, 'v) jsmap \<Rightarrow> ('k, 'v) jsmap" where
  "Map_set k v [] = [(k, v)]"
| "Map_set k v (p # ps) = (if fst p = k then (k, v) # ps else p # Map_set k v ps)"

definition Map_get :: "('k, 'v) jsmap \<Rightarrow> 'k \<Rightarrow> 'v option" where
  "Map_get m k = map_of m k"

subsection \<open>Reciprocal rank fusion\<close>

definition rrfScore :: "number \<Rightarrow> nat \<Rightarrow> number" where
  "rrfScore k index = 1 / (k + of_nat index + 1)"

text \<open>\<^verbatim>\<open>vectorResults.forEach((record, index) => ...)\<close>, from position \<open>index\<close> on.\<close>

fun addVectorResults ::
  "number \<Rightarrow> nat \<Rightarrow> VectorRow list \<Rightarrow> (string, RrfEntry) jsmap \<Rightarrow> (string, RrfEntry) jsmap"
where
  "addVectorResults k index [] rrfScores = rrfScores"
| "addVectorResults k index (record # rest) rrfScores =
     addVectorResults k (Suc index) rest
       (Map_set (v_id record)
          \<lparr>score = rrfScore k index,
           r_entityType = v_entityType record,
           vectorScore = Some (v_vectorScore record),
           bm25Score = None\<rparr>
          rrfScores)"

text \<open>\<^verbatim>\<open>keywordResults.forEach((record, index) => ...)\<close>: sum with an existing entry.\<close>

fun addKeywordResults ::
  "number \<Rightarrow> nat \<Rightarrow> KeywordRow list \<Rightarrow> (string, RrfEntry) jsmap \<Rightarrow> (string, RrfEntry) jsmap"
where
  "addKeywordResults k index [] rrfScores = rrfScores"
| "addKeywordResults k index (record # rest) rrfScores =
     addKeywordResults k (Suc index) rest
       (case Map_get rrfScores (k_id record) of
          Some existing \<Rightarrow>
            Map_set (k_id record)
              \<lparr>score = score existing + rrfScore k index,
               r_entityType = k_entityType record,
               vectorScore = vectorScore existing,
               bm25Score = Some (k_bm25Score record)\<rparr>
              rrfScores
        | None \<Rightarrow>
            Map_set (k_id record)
              \<lparr>score = rrfScore k index,
               r_entityType = k_entityType record,
               vectorScore = None,
               bm25Score = Some (k_bm25Score record)\<rparr>
              rrfScores)"

definition fuse ::
  "number \<Rightarrow> VectorRow list \<Rightarrow> KeywordRow list \<Rightarrow> (string, RrfEntry) jsmap" where
  "fuse k vectorResults keywordResults =
     addKeywordResults k 0 keywordResults (addVectorResults k 0 vectorResults [])"

text \<open>
  \<^verbatim>\<open>.sort((a, b) => b[1].score - a[1].score)\<close>: \<^verbatim>\<open>Array.prototype.sort\<close> is stable,
  so this is the stable sort by descending score.
\<close>

definition sortByScore :: "(string, RrfEntry) jsmap \<Rightarrow> (string, RrfEntry) jsmap" where
  "sortByScore entries = sort_key (\<lambda>a. - score (snd a)) entries"

text \<open>
  \<^verbatim>\<open>.slice(0, end)\<close>: the end is truncated towards zero, and a negative end counts from
  the end of the array.
\<close>

definition toInteger :: "number \<Rightarrow> int" where
  "toInteger x = (if x < 0 then \<lceil>x\<rceil> else \<lfloor>x\<rfloor>)"

definition slice0 :: "number \<Rightarrow> 'a list \<Rightarrow> 'a list" where
  "slice0 end xs =
     (let len = int (length xs); relEnd = toInteger end;
          final = (if relEnd < 0 then max (len + relEnd) 0 else min relEnd len)
      in take (nat final) xs)"

definition sortedResults ::
  "number \<Rightarrow> number \<Rightarrow> VectorRow list \<Rightarrow> KeywordRow list \<Rightarrow> (string, RrfEntry) jsmap" where
  "sortedResults k lmt vectorResults keywordResults =
     slice0 lmt (sortByScore (fuse k vectorResults keywordResults))"

subsection \<open>The store client\<close>

text \<open>
  \<^verbatim>\<open>Neo4jHttpClient.query\<close> posts a statement and throws on a response that is not ok.
  The search functions send five fixed statements; the client is modelled by the answer
  it gives to each, a value of \<open>Neo4jError + rows\<close>. The queries sent are logged, in order.
\<close>

datatype Neo4jError = QueryFailed nat string

record EntityRow =
  e_name :: string
  e_entityType :: string
  e_observations :: string
  e_id :: string
  e_version :: number
  e_createdAt :: "number option"
  e_updatedAt :: "number option"

record RelationRow =
  fromName :: string
  toName :: string
  row_relationType :: string

record ScoredRow =
  s_name :: string
  s_entityType :: string
  s_score :: number

record Neo4jHttpClient =
  vectorQuery :: "int \<Rightarrow> number list \<Rightarrow> Neo4jError + VectorRow list"
  keywordQuery :: "string \<Rightarrow> int \<Rightarrow> Neo4jError + KeywordRow list"
  entityQuery :: "string list \<Rightarrow> Neo4jError + EntityRow list"
  relationQuery :: "string list \<Rightarrow> Neo4jError + RelationRow list"
  vectorFloorQuery :: "number \<Rightarrow> number list \<Rightarrow> number \<Rightarrow> Neo4jError + ScoredRow list"

datatype Call =
    VectorCall int "number list"
  | KeywordCall string int
  | EntityCall "string list"
  | RelationCall "string list"
  | VectorFloorCall number "number list" number

subsection \<open>Results\<close>

text \<open>What \<^verbatim>\<open>JSON.parse\<close> returns.\<close>

datatype json =
    JNull
  | JBool bool
  | JNumber number
  | JString string
  | JArray "json list"
  | JObject "(string \<times> json) list"

text \<open>
  The two library functions the hydration calls: \<^verbatim>\<open>JSON.parse\<close> (\<open>None\<close> when it
  throws) and \<^verbatim>\<open>Date.prototype.toISOString\<close> on a valid time value.
\<close>

record Host =
  JSON_parse :: "string \<Rightarrow> json option"
  toISOString :: "int \<Rightarrow> string"

record Entity =
  name :: string
  entityType :: string
  observations :: json
  ident :: string
  version :: number
  createdAt :: "number option"
  updatedAt :: "number option"
  created :: "string option"
  updated :: "string option"

record Relation =
  rel_from :: string
  rel_to :: string
  relationType :: string

text \<open>\<^verbatim>\<open>timeTaken\<close> is a difference of wall-clock readings and is left out.\<close>

record SearchResult =
  entities :: "Entity list"
  relations :: "Relation list"
  total :: nat

text \<open>date-utils.ts; a time value beyond 8.64e15 ms is an invalid Date.\<close>

definition formatTimestamp :: "Host \<Rightarrow> number option \<Rightarrow> string option" where
  "formatTimestamp host ts =
     (case ts of
        None \<Rightarrow> None
      | Some t \<Rightarrow>
          if \<bar>t\<bar> > 8640000000000000 then None
          else Some (takeWhile (\<lambda>c. c \<noteq> CHR ''T'') (toISOString host (toInteger t))))"

text \<open>The \<^verbatim>\<open>try { return JSON.parse(e.observations) } catch { return [] }\<close> of the hydration.\<close>

definition tryParseObservations :: "Host \<Rightarrow> string \<Rightarrow> json" where
  "tryParseObservations host obs =
     (case JSON_parse host obs of Some v \<Rightarrow> v | None \<Rightarrow> JArray [])"

text \<open>
  \<^verbatim>\<open>parseObservations\<close> of memento-tools.ts: \<^verbatim>\<open>null\<close>, \<^verbatim>\<open>undefined\<close> (here \<open>None\<close>) and
  the empty string are falsy.
\<close>

definition parseObservations :: "Host \<Rightarrow> string option \<Rightarrow> json" where
  "parseObservations host obs =
     (case obs of
        None \<Rightarrow> JArray []
      | Some s \<Rightarrow>
          if s = [] then JArray []
          else (case JSON_parse host s of Some v \<Rightarrow> v | None \<Rightarrow> JArray []))"

definition toEntity :: "Host \<Rightarrow> EntityRow \<Rightarrow> Entity" where
  "toEntity host e =
     \<lparr>name = e_name e,
      entityType = e_entityType e,
      observations = tryParseObservations host (e_observations e),
      ident = e_id e,
      version = e_version e,
      createdAt = e_createdAt e,
      updatedAt = e_updatedAt e,
      created = formatTimestamp host (e_createdAt e),
      updated = formatTimestamp host (e_updatedAt e)\<rparr>"

definition toRelation :: "RelationRow \<Rightarrow> Relation" where
  "toRelation r =
     \<lparr>rel_from = fromName r, rel_to = toName r, relationType = row_relationType r\<rparr>"

definition emptyResult :: SearchResult where
  "emptyResult = \<lparr>entities = [], relations = [], total = 0\<rparr>"

subsection \<open>hybridSearchWithRRF\<close>

text \<open>\<^verbatim>\<open>options.x || d\<close>: an absent value and the falsy number 0 both give the default.\<close>

definition orDefault :: "number option \<Rightarrow> number \<Rightarrow> number" where
  "orDefault x d = (case x of None \<Rightarrow> d | Some v \<Rightarrow> if v = 0 then d else v)"

definition hybridSearchWithRRF ::
  "Host \<Rightarrow> Neo4jHttpClient \<Rightarrow> number list \<Rightarrow> string \<Rightarrow> SearchOptions
     \<Rightarrow> Call list \<times> (Neo4jError + SearchResult)" where
  "hybridSearchWithRRF host neo4j queryVector queryText options =
     (let lmt = orDefault (limit options) 10;
          k = orDefault (rrfK options) 60;
          c1 = VectorCall \<lfloor>lmt * 2\<rfloor> queryVector;
          c2 = KeywordCall queryText \<lfloor>lmt * 2\<rfloor>
      in case vectorQuery neo4j \<lfloor>lmt * 2\<rfloor> queryVector of
           Inl err \<Rightarrow> ([c1], Inl err)
         | Inr vectorResults \<Rightarrow>
        (case keywordQuery neo4j queryText \<lfloor>lmt * 2\<rfloor> of
           Inl err \<Rightarrow> ([c1, c2], Inl err)
         | Inr keywordResults \<Rightarrow>
        (let sorted = sortedResults k lmt vectorResults keywordResults
         in if length sorted = 0 then ([c1, c2], Inr emptyResult)
            else
              (let entityNames = map fst sorted;
                   c3 = EntityCall entityNames;
                   c4 = RelationCall entityNames
               in case entityQuery neo4j entityNames of
                    Inl err \<Rightarrow> ([c1, c2, c3], Inl err)
                  | Inr rows \<Rightarrow>
                 (case relationQuery neo4j entityNames of
                    Inl err \<Rightarrow> ([c1, c2, c3, c4], Inl err)
                  | Inr rels \<Rightarrow>
                      ([c1, c2, c3, c4],
                       Inr \<lparr>entities = map (toEntity host) rows,
                            relations = map toRelation rels,
                            total = length rows\<rparr>))))))"

subsection \<open>vectorSearch\<close>

definition vectorSearch ::
  "Host \<Rightarrow> Neo4jHttpClient \<Rightarrow> number list \<Rightarrow> SearchOptions
     \<Rightarrow> Call list \<times> (Neo4jError + SearchResult)" where
  "vectorSearch host neo4j queryVector options =
     (let lmt = orDefault (limit options) 10;
          minScore = orDefault (minSimilarity options) (6 / 10);
          c1 = VectorFloorCall lmt queryVector minScore
      in case vectorFloorQuery neo4j lmt queryVector minScore of
           Inl err \<Rightarrow> ([c1], Inl err)
         | Inr vectorResults \<Rightarrow>
        if length vectorResults = 0 then ([c1], Inr emptyResult)
        else
          (let entityNames = map s_name vectorResults;
               c2 = EntityCall entityNames;
               c3 = RelationCall entityNames
           in case entityQuery neo4j entityNames of
                Inl err \<Rightarrow> ([c1, c2], Inl err)
              | Inr rows \<Rightarrow>
             (case relationQuery neo4j entityNames of
                Inl err \<Rightarrow> ([c1, c2, c3], Inl err)
              | Inr rels \<Rightarrow>
                  ([c1, c2, c3],
                   Inr \<lparr>entities = map (toEntity host) rows,
                        relations = map toRelation rels,
                        total = length rows\<rparr>))))"

subsection \<open>The statements over a graph\<close>

text \<open>
  The Cypher statements of the hybrid search, read over a property graph. The type
  parameter is the stored form of the \<^verbatim>\<open>observations\<close> property. The writers of this
  repository store one JSON text (\<^verbatim>\<open>observations: JSON.stringify(...)\<close> in create_entities,
  add_observations and delete_observations), and the hydration reads it back with
  \<^verbatim>\<open>JSON.parse\<close>: the graphs of the search are graphs at the type \<open>string\<close>.
\<close>

record 'o EntityNode =
  n_name :: string
  n_entityType :: string
  n_observations :: 'o
  n_id :: string
  n_version :: number
  n_createdAt :: "number option"
  n_updatedAt :: "number option"
  n_validTo :: "number option"

record 'o Relationship =
  source :: "'o EntityNode"
  target :: "'o EntityNode"
  rs_relationType :: string
  rs_validTo :: "number option"

record 'o Graph =
  nodes :: "'o EntityNode list"
  relationships :: "'o Relationship list"

text \<open>Cypher's \<^verbatim>\<open>s CONTAINS q\<close>: case-sensitive substring.\<close>

fun CONTAINS :: "string \<Rightarrow> string \<Rightarrow> bool" where
  "CONTAINS [] q = (q = [])"
| "CONTAINS (c # cs) q = (prefix q (c # cs) \<or> CONTAINS cs q)"

text \<open>
  The keyword statement ranges over the stored value with \<^verbatim>\<open>obs IN e.observations\<close>. What
  list the store ranges over for a stored value is the store's business and a parameter
  \<open>elems\<close> here. A store that holds a list of strings ranges over its elements. The
  reading of a stored text that ranges over the one-element list of the text, as a
  whole, is \<open>singleValue\<close>.
\<close>

definition singleValue :: "string \<Rightarrow> string list" where
  "singleValue v = [v]"


definition nameBoost :: "'o EntityNode \<Rightarrow> string \<Rightarrow> number" where
  "nameBoost e queryText = (if CONTAINS (n_name e) queryText then 2 else 1)"

definition obsMatches :: "('o \<Rightarrow> string list) \<Rightarrow> 'o EntityNode \<Rightarrow> string \<Rightarrow> nat" where
  "obsMatches elems e queryText =
     length (filter (\<lambda>obs. CONTAINS obs queryText) (elems (n_observations e)))"

definition bm25 :: "('o \<Rightarrow> string list) \<Rightarrow> 'o EntityNode \<Rightarrow> string \<Rightarrow> number" where
  "bm25 elems e queryText =
     nameBoost e queryText + of_nat (obsMatches elems e queryText) * (1 / 2)"

definition keywordRow :: "('o \<Rightarrow> string list) \<Rightarrow> 'o EntityNode \<Rightarrow> string \<Rightarrow> KeywordRow" where
  "keywordRow elems e queryText =
     \<lparr>k_id = n_name e, k_entityType = n_entityType e, k_bm25Score = bm25 elems e queryText\<rparr>"



definition specScore :: "string \<Rightarrow> string list \<Rightarrow> string \<Rightarrow> number" where
  "specScore nm obs q =
     (if sublist q nm then 2 else 1) + (1 / 2) * of_nat (length (filter (\<lambda>ob. sublist q ob) obs))"

text \<open>
  \<^verbatim>\<open>MATCH (e:Entity) WHERE e.name IN $names AND e.validTo IS NULL RETURN ...\<close>: no
  \<^verbatim>\<open>ORDER BY\<close>, the rows come in the order of the scan.
\<close>

definition entityRow :: "string EntityNode \<Rightarrow> EntityRow" where
  "entityRow e =
     \<lparr>e_name = n_name e,
      e_entityType = n_entityType e,
      e_observations = n_observations e,
      e_id = n_id e,
      e_version = n_version e,
      e_createdAt = n_createdAt e,
      e_updatedAt = n_updatedAt e\<rparr>"

definition entityStatement :: "string Graph \<Rightarrow> string list \<Rightarrow> EntityRow list" where
  "entityStatement g names =
     map entityRow
       (filter (\<lambda>e. n_name e \<in> set names \<and> n_validTo e = None) (nodes g))"

text \<open>
  \<^verbatim>\<open>MATCH (from:Entity)-[r:RELATES_TO]->(to:Entity) WHERE from.name IN $names AND to.name
  IN $names AND r.validTo IS NULL RETURN ...\<close>
\<close>

definition relationRow :: "'o Relationship \<Rightarrow> RelationRow" where
  "relationRow r =
     \<lparr>fromName = n_name (source r),
      toName = n_name (target r),
      row_relationType = rs_relationType r\<rparr>"

definition relationStatement :: "'o Graph \<Rightarrow> string list \<Rightarrow> RelationRow list" where
  "relationStatement g names =
     map relationRow
       (filter (\<lambda>r. n_name (source r) \<in> set names \<and> n_name (target r) \<in> set names
                    \<and> rs_validTo r = None)
          (relationships g))"

text \<open>A client whose hydration statements are answered from the graph \<open>g\<close>.\<close>

definition onGraph :: "string Graph \<Rightarrow> Neo4jHttpClient \<Rightarrow> Neo4jHttpClient" where
  "onGraph g neo4j =
     neo4j\<lparr>entityQuery := \<lambda>names. Inr (entityStatement g names),
           relationQuery := \<lambda>names. Inr (relationStatement g names)\<rparr>"

subsection \<open>The merge and the sort in the host's arithmetic\<close>

text \<open>
  The scores of the code are IEEE doubles, and which sums are equal, hence which
  candidates tie, depends on their rounding. Here the merge and the sort are embedded
  once more with the arithmetic as a parameter: \<open>hostRrf ar k index\<close> is the value the
  host computes for \<^verbatim>\<open>1 / (rrfK + index + 1)\<close>, \<open>hostAdd ar\<close> is its addition, and the
  scores are of any linearly ordered type. The functions of the subsections above are
  these at exact rational arithmetic (lemma \<open>exact_sortedResults\<close>); the arithmetic of
  the code is \<open>doubleArithmetic\<close> below.
\<close>

record 's Arithmetic =
  hostRrf :: "number \<Rightarrow> nat \<Rightarrow> 's"
  hostAdd :: "'s \<Rightarrow> 's \<Rightarrow> 's"

record 's HostEntry =
  h_score :: 's
  h_entityType :: string
  h_vectorScore :: "number option"
  h_bm25Score :: "number option"

fun addVectorResultsWith ::
  "'s Arithmetic \<Rightarrow> number \<Rightarrow> nat \<Rightarrow> VectorRow list \<Rightarrow> (string, 's HostEntry) jsmap
     \<Rightarrow> (string, 's HostEntry) jsmap"
where
  "addVectorResultsWith ar k index [] rrfScores = rrfScores"
| "addVectorResultsWith ar k index (record # rest) rrfScores =
     addVectorResultsWith ar k (Suc index) rest
       (Map_set (v_id record)
          \<lparr>h_score = hostRrf ar k index,
           h_entityType = v_entityType record,
           h_vectorScore = Some (v_vectorScore record),
           h_bm25Score = None\<rparr>
          rrfScores)"

fun addKeywordResultsWith ::
  "'s Arithmetic \<Rightarrow> number \<Rightarrow> nat \<Rightarrow> KeywordRow list \<Rightarrow> (string, 's HostEntry) jsmap
     \<Rightarrow> (string, 's HostEntry) jsmap"
where
  "addKeywordResultsWith ar k index [] rrfScores = rrfScores"
| "addKeywordResultsWith ar k index (record # rest) rrfScores =
     addKeywordResultsWith ar k (Suc index) rest
       (case Map_get rrfScores (k_id record) of
          Some existing \<Rightarrow>
            Map_set (k_id record)
              \<lparr>h_score = hostAdd ar (h_score existing) (hostRrf ar k index),
               h_entityType = k_entityType record,
               h_vectorScore = h_vectorScore existing,
               h_bm25Score = Some (k_bm25Score record)\<rparr>
              rrfScores
        | None \<Rightarrow>
            Map_set (k_id record)
              \<lparr>h_score = hostRrf ar k index,
               h_entityType = k_entityType record,
               h_vectorScore = None,
               h_bm25Score = Some (k_bm25Score record)\<rparr>
              rrfScores)"

definition fuseWith ::
  "'s Arithmetic \<Rightarrow> number \<Rightarrow> VectorRow list \<Rightarrow> KeywordRow list \<Rightarrow> (string, 's HostEntry) jsmap" where
  "fuseWith ar k vectorResults keywordResults =
     addKeywordResultsWith ar k 0 keywordResults (addVectorResultsWith ar k 0 vectorResults [])"

text \<open>
  The stable sort by descending score, as an insertion sort: an entry goes in front of
  the first entry whose score is not greater than its own.
\<close>

fun insertDesc :: "('a \<Rightarrow> 's::linorder) \<Rightarrow> 'a \<Rightarrow> 'a list \<Rightarrow> 'a list" where
  "insertDesc key a [] = [a]"
| "insertDesc key a (b # bs) = (if key b \<le> key a then a # b # bs else b # insertDesc key a bs)"

definition sortDesc :: "('a \<Rightarrow> 's::linorder) \<Rightarrow> 'a list \<Rightarrow> 'a list" where
  "sortDesc key xs = foldr (insertDesc key) xs []"

definition sortByScoreWith :: "(string, 's::linorder HostEntry) jsmap \<Rightarrow> (string, 's HostEntry) jsmap" where
  "sortByScoreWith entries = sortDesc (\<lambda>a. h_score (snd a)) entries"

definition sortedResultsWith ::
  "'s::linorder Arithmetic \<Rightarrow> number \<Rightarrow> number \<Rightarrow> VectorRow list \<Rightarrow> KeywordRow list
     \<Rightarrow> (string, 's HostEntry) jsmap" where
  "sortedResultsWith ar k lmt vectorResults keywordResults =
     slice0 lmt (sortByScoreWith (fuseWith ar k vectorResults keywordResults))"

text \<open>The score the \<^verbatim>\<open>rrfScores\<close> map holds for an identifier.\<close>

definition fusedScoreWith ::
  "'s Arithmetic \<Rightarrow> number \<Rightarrow> VectorRow list \<Rightarrow> KeywordRow list \<Rightarrow> string \<Rightarrow> 's option" where
  "fusedScoreWith ar k vectorResults keywordResults x =
     map_option h_score (Map_get (fuseWith ar k vectorResults keywordResults) x)"

text \<open>Exact rational arithmetic, and the entries of the subsections above as host entries.\<close>

definition exactArithmetic :: "number Arithmetic" where
  "exactArithmetic = \<lparr>hostRrf = rrfScore, hostAdd = (\<lambda>a b. a + b)\<rparr>"

definition toHostEntry :: "RrfEntry \<Rightarrow> number HostEntry" where
  "toHostEntry e =
     \<lparr>h_score = score e, h_entityType = r_entityType e,
      h_vectorScore = vectorScore e, h_bm25Score = bm25Score e\<rparr>"

subsection \<open>The doubles of the host\<close>

text \<open>
  The scores of the code are IEEE 754 binary64 numbers. A double is \<^verbatim>\<open>NaN\<close>, an infinity,
  or a rational number \<open>m * 2 ^ e\<close> with \<open>\<bar>m\<bar> < 2 ^ 53\<close> and \<open>- 1074 \<le> e \<le> 971\<close>. The two
  zeros are one value here: they compare equal, and the only zero that the code
  divides by is the sum \<^verbatim>\<open>rrfK + index + 1\<close>, which is \<^verbatim>\<open>+0\<close> when it is zero.
\<close>

datatype double = NaN | NegInfinity | Finite rat | PosInfinity

text \<open>
  The order of the doubles. \<^verbatim>\<open>NaN\<close> is put below the others to make the order linear;
  the comparator \<^verbatim>\<open>b[1].score - a[1].score\<close> of the sort is this order on the doubles other
  than \<^verbatim>\<open>NaN\<close>: the difference of two finite doubles is zero only if they are equal and
  has the sign of the exact difference, and \<^verbatim>\<open>Infinity - Infinity\<close> is \<^verbatim>\<open>NaN\<close>, which \<^verbatim>\<open>sort\<close>
  takes for 0. A score is \<^verbatim>\<open>NaN\<close> only as the sum of \<^verbatim>\<open>Infinity\<close> and \<^verbatim>\<open>-Infinity\<close>, and
  \<^verbatim>\<open>-Infinity\<close> only as a sum that overflows: a quotient \<^verbatim>\<open>1 / d\<close> is between \<open>- 2 ^ 53\<close> and
  \<open>2 ^ 53\<close>, or is \<^verbatim>\<open>Infinity\<close>.
\<close>

fun belowD :: "double \<Rightarrow> double \<Rightarrow> bool" where
  "belowD NaN b = True"
| "belowD a NaN = False"
| "belowD NegInfinity b = True"
| "belowD a NegInfinity = False"
| "belowD a PosInfinity = True"
| "belowD PosInfinity b = False"
| "belowD (Finite x) (Finite y) = (x \<le> y)"

instantiation double :: linorder
begin

definition less_eq_double :: "double \<Rightarrow> double \<Rightarrow> bool" where
  "less_eq_double a b = belowD a b"

definition less_double :: "double \<Rightarrow> double \<Rightarrow> bool" where
  "less_double a b = (belowD a b \<and> \<not> belowD b a)"

instance
proof
  fix x y z :: double
  show "(x < y) = (x \<le> y \<and> \<not> y \<le> x)"
    by (simp add: less_eq_double_def less_double_def)
  show "x \<le> x"
    by (cases x) (simp_all add: less_eq_double_def)
  show "x \<le> y \<Longrightarrow> y \<le> z \<Longrightarrow> x \<le> z"
    by (cases x; cases y; cases z) (simp_all add: less_eq_double_def)
  show "x \<le> y \<Longrightarrow> y \<le> x \<Longrightarrow> x = y"
    by (cases x; cases y) (simp_all add: less_eq_double_def)
  show "x \<le> y \<or> y \<le> x"
    by (cases x; cases y) (auto simp add: less_eq_double_def)
qed

end

text \<open>
  Rounding to the nearest double, ties to the even significand. \<open>floorLog2 n\<close> is the
  position of the leading bit of \<open>n\<close>, and \<open>exponentOf x\<close> is the \<open>E\<close> with
  \<open>2 ^ E \<le> \<bar>x\<bar> < 2 ^ (E + 1)\<close>. The significand has 53 bits, so the unit of \<open>x\<close> is
  \<open>2 ^ (E - 52)\<close>, and \<open>2 ^ (- 1074)\<close> in the subnormal range. The rounded magnitude reaches
  \<open>2 ^ 1024\<close>, and the result is an infinity, when the unit is above \<open>2 ^ 971\<close> or is
  \<open>2 ^ 971\<close> with a significand rounded up to \<open>2 ^ 53\<close>.
\<close>

function floorLog2 :: "int \<Rightarrow> int" where
  "floorLog2 n = (if n < 2 then 0 else floorLog2 (n div 2) + 1)"
  by pat_completeness auto

termination floorLog2
  by (relation "measure nat") auto

declare floorLog2.simps [simp del]

definition pow2 :: "int \<Rightarrow> rat" where
  "pow2 e = (if 0 \<le> e then 2 ^ nat e else 1 / 2 ^ nat (- e))"

definition exponentOf :: "rat \<Rightarrow> int" where
  "exponentOf x =
     (let d = floorLog2 \<bar>fst (quotient_of x)\<bar> - floorLog2 (snd (quotient_of x))
      in if pow2 d \<le> \<bar>x\<bar> then d else d - 1)"

definition roundHalfEven :: "rat \<Rightarrow> int" where
  "roundHalfEven y =
     (let f = \<lfloor>y\<rfloor>; r = y - of_int f
      in if r < 1 / 2 then f else if 1 / 2 < r then f + 1 else if f mod 2 = 0 then f else f + 1)"

definition toDouble :: "rat \<Rightarrow> double" where
  "toDouble x =
     (if x = 0 then Finite 0
      else let e = max (exponentOf x - 52) (- 1074);
               m = roundHalfEven (x / pow2 e)
           in if 971 < e \<or> (e = 971 \<and> 2 ^ 53 \<le> \<bar>m\<bar>)
              then (if 0 < x then PosInfinity else NegInfinity)
              else Finite (of_int m * pow2 e))"

text \<open>The sum of two doubles, and \<^verbatim>\<open>1 / d\<close>.\<close>

fun addD :: "double \<Rightarrow> double \<Rightarrow> double" where
  "addD (Finite a) (Finite b) = toDouble (a + b)"
| "addD NaN b = NaN"
| "addD a NaN = NaN"
| "addD PosInfinity NegInfinity = NaN"
| "addD NegInfinity PosInfinity = NaN"
| "addD PosInfinity b = PosInfinity"
| "addD a PosInfinity = PosInfinity"
| "addD NegInfinity b = NegInfinity"
| "addD a NegInfinity = NegInfinity"

fun oneOverD :: "double \<Rightarrow> double" where
  "oneOverD NaN = NaN"
| "oneOverD NegInfinity = Finite 0"
| "oneOverD PosInfinity = Finite 0"
| "oneOverD (Finite d) = (if d = 0 then PosInfinity else toDouble (1 / d))"

text \<open>
  The arithmetic of the code: \<^verbatim>\<open>1 / (rrfK + index + 1)\<close>, the sum from the left, and
  \<^verbatim>\<open>existing.score + rrfScore\<close>.
\<close>

definition doubleArithmetic :: "double Arithmetic" where
  "doubleArithmetic =
     \<lparr>hostRrf = (\<lambda>k index.
         oneOverD (addD (addD (toDouble k) (toDouble (of_nat index))) (Finite 1))),
      hostAdd = addD\<rparr>"

section \<open>Auxiliary definitions\<close>

text \<open>The score an identifier has in a map, and the sum the keyword loop adds to it.\<close>

definition scoreOf :: "(string, RrfEntry) jsmap \<Rightarrow> string \<Rightarrow> number option" where
  "scoreOf m x = map_option score (map_of m x)"

definition base :: "(string, RrfEntry) jsmap \<Rightarrow> string \<Rightarrow> number" where
  "base m x = (case scoreOf m x of None \<Rightarrow> 0 | Some s \<Rightarrow> s)"

fun kwSum :: "number \<Rightarrow> nat \<Rightarrow> KeywordRow list \<Rightarrow> string \<Rightarrow> number" where
  "kwSum k i [] x = 0"
| "kwSum k i (r # rs) x = (if k_id r = x then rrfScore k i else 0) + kwSum k (Suc i) rs x"

text \<open>The fused score of an identifier: its entry in the sorted array, before the slice.\<close>

definition fusedScore :: "number \<Rightarrow> VectorRow list \<Rightarrow> KeywordRow list \<Rightarrow> string \<Rightarrow> number option" where
  "fusedScore k vectorResults keywordResults x =
     map_option score (Map_get (sortByScore (fuse k vectorResults keywordResults)) x)"

text \<open>
  The order in which the elements of a list are first met: the head, then the
  first-met order of the tail without it.
\<close>

fun firstSeen :: "'a list \<Rightarrow> 'a list" where
  "firstSeen [] = []"
| "firstSeen (x # xs) = x # filter (\<lambda>y. y \<noteq> x) (firstSeen xs)"

subsection \<open>Example inputs\<close>

text \<open>The candidate lists of the end-to-end scenario.\<close>

definition exampleVector :: "VectorRow list" where
  "exampleVector =
     [\<lparr>v_id = ''A'', v_entityType = ''person'', v_vectorScore = 9 / 10\<rparr>,
      \<lparr>v_id = ''B'', v_entityType = ''person'', v_vectorScore = 8 / 10\<rparr>,
      \<lparr>v_id = ''C'', v_entityType = ''person'', v_vectorScore = 7 / 10\<rparr>]"

definition exampleKeyword :: "KeywordRow list" where
  "exampleKeyword =
     [\<lparr>k_id = ''B'', k_entityType = ''person'', k_bm25Score = 3\<rparr>,
      \<lparr>k_id = ''D'', k_entityType = ''person'', k_bm25Score = 2\<rparr>]"

text \<open>A keyword list in which two rows carry the same identifier.\<close>

definition duplicateKeyword :: "KeywordRow list" where
  "duplicateKeyword =
     [\<lparr>k_id = ''A'', k_entityType = ''person'', k_bm25Score = 3\<rparr>,
      \<lparr>k_id = ''A'', k_entityType = ''person'', k_bm25Score = 2\<rparr>]"

text \<open>Two lists whose single candidates tie at rank 0.\<close>

definition tieVector :: "VectorRow list" where
  "tieVector = [\<lparr>v_id = ''A'', v_entityType = ''person'', v_vectorScore = 9 / 10\<rparr>]"

definition tieKeyword :: "KeywordRow list" where
  "tieKeyword = [\<lparr>k_id = ''D'', k_entityType = ''person'', k_bm25Score = 2\<rparr>]"

text \<open>Further vector lists.\<close>

definition twoVector :: "VectorRow list" where
  "twoVector =
     [\<lparr>v_id = ''A'', v_entityType = ''person'', v_vectorScore = 9 / 10\<rparr>,
      \<lparr>v_id = ''B'', v_entityType = ''person'', v_vectorScore = 8 / 10\<rparr>]"

definition vectorBA :: "VectorRow list" where
  "vectorBA =
     [\<lparr>v_id = ''B'', v_entityType = ''person'', v_vectorScore = 9 / 10\<rparr>,
      \<lparr>v_id = ''A'', v_entityType = ''person'', v_vectorScore = 8 / 10\<rparr>]"

text \<open>A host whose \<^verbatim>\<open>JSON.parse\<close> accepts two texts and throws on every other one.\<close>

definition exampleHost :: Host where
  "exampleHost =
     \<lparr>JSON_parse = (\<lambda>s. if s = ''[]'' then Some (JArray [])
                        else if s = ''[1]'' then Some (JArray [JNumber 1]) else None),
      toISOString = (\<lambda>t. ''2025-05-27T00:00:00.000Z'')\<rparr>"

text \<open>
  A client that answers the two candidate statements with fixed rows, cut at the
  limit, and that has nothing to hydrate.
\<close>

definition candidateClient :: "VectorRow list \<Rightarrow> KeywordRow list \<Rightarrow> Neo4jHttpClient" where
  "candidateClient vs ks =
     \<lparr>vectorQuery = (\<lambda>l q. if l < 0 then Inl (QueryFailed 400 ''limit'') else Inr (take (nat l) vs)),
      keywordQuery = (\<lambda>t l. if l < 0 then Inl (QueryFailed 400 ''limit'') else Inr (take (nat l) ks)),
      entityQuery = (\<lambda>names. Inr []),
      relationQuery = (\<lambda>names. Inr []),
      vectorFloorQuery = (\<lambda>l q m. Inr [])\<rparr>"

text \<open>The options object \<^verbatim>\<open>{}\<close>.\<close>

definition noOptions :: SearchOptions where
  "noOptions = \<lparr>limit = None, minSimilarity = None, entityTypes = None, hybridSearch = None, rrfK = None\<rparr>"

text \<open>
  Nodes and graphs for the hydration statements: a visible node \<open>A\<close>; a node \<open>B\<close>
  that is visible, one whose observations text does not parse, and one that is
  soft-deleted.
\<close>

definition nodeA :: "string EntityNode" where
  "nodeA = \<lparr>n_name = ''A'', n_entityType = ''person'', n_observations = ''[]'', n_id = ''id-a'',
            n_version = 1, n_createdAt = Some 1748304000000, n_updatedAt = Some 1748304000000,
            n_validTo = None\<rparr>"

definition visibleB :: "string EntityNode" where
  "visibleB = \<lparr>n_name = ''B'', n_entityType = ''person'', n_observations = ''[]'', n_id = ''id-b'',
            n_version = 1, n_createdAt = Some 1748304000000, n_updatedAt = Some 1748304000000,
            n_validTo = None\<rparr>"

definition corruptNode :: "string EntityNode" where
  "corruptNode = \<lparr>n_name = ''B'', n_entityType = ''person'', n_observations = ''[not json'', n_id = ''id-b'',
            n_version = 1, n_createdAt = Some 1748304000000, n_updatedAt = None,
            n_validTo = None\<rparr>"

definition deletedB :: "string EntityNode" where
  "deletedB = \<lparr>n_name = ''B'', n_entityType = ''person'', n_observations = ''[]'', n_id = ''id-b'',
            n_version = 2, n_createdAt = Some 1748304000000, n_updatedAt = Some 1748390400000,
            n_validTo = Some 1748390400000\<rparr>"

definition graphA :: "string Graph" where
  "graphA = \<lparr>nodes = [nodeA], relationships = []\<rparr>"

definition graphAB :: "string Graph" where
  "graphAB = \<lparr>nodes = [nodeA, visibleB], relationships = []\<rparr>"

definition graphCorrupt :: "string Graph" where
  "graphCorrupt = \<lparr>nodes = [nodeA, corruptNode], relationships = []\<rparr>"

definition graphDangling :: "string Graph" where
  "graphDangling =
     \<lparr>nodes = [nodeA, deletedB],
      relationships = [\<lparr>source = nodeA, target = deletedB, rs_relationType = ''knows'',
                        rs_validTo = None\<rparr>]\<rparr>"

subsection \<open>The fused ranking\<close>

text \<open>The identifiers of a list of entries with their fused scores.\<close>

definition ranking :: "(string, 's HostEntry) jsmap \<Rightarrow> (string \<times> 's) list" where
  "ranking entries = map (\<lambda>a. (fst a, h_score (snd a))) entries"

text \<open>The two merge loops and the ranking on the identifiers alone.\<close>

fun vectorScores ::
  "'s Arithmetic \<Rightarrow> number \<Rightarrow> nat \<Rightarrow> string list \<Rightarrow> (string, 's) jsmap \<Rightarrow> (string, 's) jsmap"
where
  "vectorScores ar k index [] scores = scores"
| "vectorScores ar k index (x # rest) scores =
     vectorScores ar k (Suc index) rest (Map_set x (hostRrf ar k index) scores)"

fun keywordScores ::
  "'s Arithmetic \<Rightarrow> number \<Rightarrow> nat \<Rightarrow> string list \<Rightarrow> (string, 's) jsmap \<Rightarrow> (string, 's) jsmap"
where
  "keywordScores ar k index [] scores = scores"
| "keywordScores ar k index (x # rest) scores =
     keywordScores ar k (Suc index) rest
       (case Map_get scores x of
          Some existing \<Rightarrow> Map_set x (hostAdd ar existing (hostRrf ar k index)) scores
        | None \<Rightarrow> Map_set x (hostRrf ar k index) scores)"

definition rankingOfIds ::
  "'s::linorder Arithmetic \<Rightarrow> number \<Rightarrow> number \<Rightarrow> string list \<Rightarrow> string list \<Rightarrow> (string \<times> 's) list" where
  "rankingOfIds ar k lmt vectorIds keywordIds =
     slice0 lmt (sortDesc snd (keywordScores ar k 0 keywordIds (vectorScores ar k 0 vectorIds [])))"

text \<open>
  Lists on which rounding decides a tie: with \<open>k = 9\<close>, \<open>X\<close> is at the ranks 2 and 2 and
  scores \<open>1/12 + 1/12\<close>, \<open>Y\<close> is at the ranks 5 and 0 and scores \<open>1/15 + 1/10\<close>. The two
  sums are equal as rationals; in doubles the first is 0.16666666666666666 and the second
  0.16666666666666669. The second vector list has the same identifiers with other raw
  scores and types.
\<close>

definition roundingVector :: "VectorRow list" where
  "roundingVector =
     [\<lparr>v_id = ''v0'', v_entityType = ''person'', v_vectorScore = 9 / 10\<rparr>,
      \<lparr>v_id = ''v1'', v_entityType = ''person'', v_vectorScore = 9 / 10\<rparr>,
      \<lparr>v_id = ''X'', v_entityType = ''person'', v_vectorScore = 8 / 10\<rparr>,
      \<lparr>v_id = ''v3'', v_entityType = ''person'', v_vectorScore = 8 / 10\<rparr>,
      \<lparr>v_id = ''v4'', v_entityType = ''person'', v_vectorScore = 7 / 10\<rparr>,
      \<lparr>v_id = ''Y'', v_entityType = ''person'', v_vectorScore = 7 / 10\<rparr>]"

definition roundingKeyword :: "KeywordRow list" where
  "roundingKeyword =
     [\<lparr>k_id = ''Y'', k_entityType = ''person'', k_bm25Score = 3\<rparr>,
      \<lparr>k_id = ''w1'', k_entityType = ''person'', k_bm25Score = 5 / 2\<rparr>,
      \<lparr>k_id = ''X'', k_entityType = ''person'', k_bm25Score = 2\<rparr>]"

definition rescoredVector :: "VectorRow list" where
  "rescoredVector =
     [\<lparr>v_id = ''v0'', v_entityType = ''team'', v_vectorScore = 6 / 10\<rparr>,
      \<lparr>v_id = ''v1'', v_entityType = ''team'', v_vectorScore = 6 / 10\<rparr>,
      \<lparr>v_id = ''X'', v_entityType = ''team'', v_vectorScore = 6 / 10\<rparr>,
      \<lparr>v_id = ''v3'', v_entityType = ''team'', v_vectorScore = 5 / 10\<rparr>,
      \<lparr>v_id = ''v4'', v_entityType = ''team'', v_vectorScore = 5 / 10\<rparr>,
      \<lparr>v_id = ''Y'', v_entityType = ''team'', v_vectorScore = 5 / 10\<rparr>]"

subsection \<open>Stored observations\<close>

text \<open>
  The text \<^verbatim>\<open>JSON.stringify\<close> gives for a list of strings none of which has a character
  that JSON escapes.
\<close>

definition quoted :: "string \<Rightarrow> string" where
  "quoted s = CHR 0x22 # s @ [CHR 0x22]"

fun joinWith :: "string \<Rightarrow> string list \<Rightarrow> string" where
  "joinWith sep [] = []"
| "joinWith sep [x] = x"
| "joinWith sep (x # y # ys) = x @ sep @ joinWith sep (y # ys)"

definition stringify :: "string list \<Rightarrow> string" where
  "stringify xs = ''['' @ joinWith '','' (map quoted xs) @ '']''"

text \<open>Nodes as create_entities writes them, for the keyword statement.\<close>

definition teamBadass :: "string EntityNode" where
  "teamBadass = \<lparr>n_name = ''TeamBadass'', n_entityType = ''team'',
      n_observations = stringify [''founded in 2024''], n_id = ''id-1'', n_version = 1,
      n_createdAt = None, n_updatedAt = None, n_validTo = None\<rparr>"

definition willie :: "string EntityNode" where
  "willie = \<lparr>n_name = ''Willie'', n_entityType = ''person'',
      n_observations = stringify [''works with TeamBadass'', ''TeamBadass lead'', ''joined TeamBadass''],
      n_id = ''id-2'', n_version = 1,
      n_createdAt = None, n_updatedAt = None, n_validTo = None\<rparr>"

definition alice :: "string EntityNode" where
  "alice = \<lparr>n_name = ''Alice'', n_entityType = ''person'',
      n_observations = stringify [''likes tea''], n_id = ''id-3'', n_version = 1,
      n_createdAt = None, n_updatedAt = None, n_validTo = None\<rparr>"

definition teamNotes :: "string EntityNode" where
  "teamNotes = \<lparr>n_name = ''TeamBadass notes'', n_entityType = ''document'',
      n_observations = stringify [''minutes of TeamBadass''], n_id = ''id-4'', n_version = 1,
      n_createdAt = None, n_updatedAt = None, n_validTo = None\<rparr>"

section \<open>Properties\<close>

subsection \<open>The map and the two merge loops\<close>

lemma map_of_Map_set: "map_of (Map_set k v m) = (map_of m)(k \<mapsto> v)"
  by (induction m) (auto simp: fun_eq_iff)

lemma keys_Map_set:
  "map fst (Map_set k v m) = (if k \<in> fst ` set m then map fst m else map fst m @ [k])"
  by (induction m) auto

lemma distinct_Map_set: "distinct (map fst m) \<Longrightarrow> distinct (map fst (Map_set k v m))"
  by (simp add: keys_Map_set)

lemma kwSum_absent: "x \<notin> k_id ` set ks \<Longrightarrow> kwSum k i ks x = 0"
  by (induction ks arbitrary: i) auto

lemma scoreOf_addVector_absent:
  "x \<notin> v_id ` set vs \<Longrightarrow> scoreOf (addVectorResults k i vs m) x = scoreOf m x"
  by (induction vs arbitrary: i m) (auto simp: scoreOf_def map_of_Map_set)

lemma scoreOf_addVector_present:
  "x \<in> v_id ` set vs \<Longrightarrow>
   \<exists>j < length vs. v_id (vs ! j) = x \<and> scoreOf (addVectorResults k i vs m) x = Some (rrfScore k (i + j))"
proof (induction vs arbitrary: i m)
  case Nil
  then show ?case by simp
next
  case (Cons r rs)
  let ?m = "Map_set (v_id r) \<lparr>score = rrfScore k i, r_entityType = v_entityType r,
              vectorScore = Some (v_vectorScore r), bm25Score = None\<rparr> m"
  show ?case
  proof (cases "x \<in> v_id ` set rs")
    case True
    from Cons.IH[OF True, of "Suc i" ?m] obtain j where
      "j < length rs" "v_id (rs ! j) = x"
      "scoreOf (addVectorResults k (Suc i) rs ?m) x = Some (rrfScore k (Suc i + j))" by blast
    then have "Suc j < length (r # rs) \<and> v_id ((r # rs) ! Suc j) = x \<and>
      scoreOf (addVectorResults k i (r # rs) m) x = Some (rrfScore k (i + Suc j))" by simp
    then show ?thesis by blast
  next
    case False
    with Cons.prems have x: "v_id r = x" by auto
    have "scoreOf (addVectorResults k i (r # rs) m) x = scoreOf ?m x"
      using False by (simp add: scoreOf_addVector_absent)
    also have "\<dots> = Some (rrfScore k i)" using x by (simp add: scoreOf_def map_of_Map_set)
    finally have "0 < length (r # rs) \<and> v_id ((r # rs) ! 0) = x \<and>
      scoreOf (addVectorResults k i (r # rs) m) x = Some (rrfScore k (i + 0))" using x by simp
    then show ?thesis by blast
  qed
qed

lemma scoreOf_addVector_distinct:
  "distinct (map v_id vs) \<Longrightarrow> j < length vs \<Longrightarrow>
   scoreOf (addVectorResults k i vs m) (v_id (vs ! j)) = Some (rrfScore k (i + j))"
proof -
  assume d: "distinct (map v_id vs)" and j: "j < length vs"
  then have "v_id (vs ! j) \<in> v_id ` set vs" by simp
  from scoreOf_addVector_present[OF this, of k i m] obtain j' where
    j': "j' < length vs" "v_id (vs ! j') = v_id (vs ! j)"
    "scoreOf (addVectorResults k i vs m) (v_id (vs ! j)) = Some (rrfScore k (i + j'))" by blast
  from d j j'(1,2) have "j' = j"
    by (metis distinct_conv_nth length_map nth_map)
  with j'(3) show ?thesis by simp
qed

lemma scoreOf_addKeyword:
  "scoreOf (addKeywordResults k i ks m) x =
     (if x \<in> k_id ` set ks then Some (base m x + kwSum k i ks x) else scoreOf m x)"
proof (induction ks arbitrary: i m)
  case Nil
  then show ?case by simp
next
  case (Cons r rs)
  let ?m = "(case Map_get m (k_id r) of
          Some existing \<Rightarrow>
            Map_set (k_id r)
              \<lparr>score = score existing + rrfScore k i,
               r_entityType = k_entityType r,
               vectorScore = vectorScore existing,
               bm25Score = Some (k_bm25Score r)\<rparr>
              m
        | None \<Rightarrow>
            Map_set (k_id r)
              \<lparr>score = rrfScore k i,
               r_entityType = k_entityType r,
               vectorScore = None,
               bm25Score = Some (k_bm25Score r)\<rparr>
              m)"
  have step: "scoreOf ?m x = (if k_id r = x then Some (base m x + rrfScore k i) else scoreOf m x)"
    by (auto simp: scoreOf_def base_def Map_get_def map_of_Map_set split: option.splits)
  have "scoreOf (addKeywordResults k i (r # rs) m) x = scoreOf (addKeywordResults k (Suc i) rs ?m) x"
    by simp
  also have "\<dots> = (if x \<in> k_id ` set rs then Some (base ?m x + kwSum k (Suc i) rs x) else scoreOf ?m x)"
    by (rule Cons.IH)
  also have "\<dots> = (if x \<in> k_id ` set (r # rs) then Some (base m x + kwSum k i (r # rs) x) else scoreOf m x)"
    using step by (auto simp: base_def kwSum_absent)
  finally show ?case .
qed

lemma kwSum_distinct:
  "distinct (map k_id ks) \<Longrightarrow> j < length ks \<Longrightarrow> kwSum k i ks (k_id (ks ! j)) = rrfScore k (i + j)"
proof (induction ks arbitrary: i j)
  case Nil
  then show ?case by simp
next
  case (Cons r rs)
  show ?case
  proof (cases j)
    case 0
    with Cons.prems show ?thesis by (simp add: kwSum_absent)
  next
    case (Suc j')
    with Cons.prems have "k_id (rs ! j') \<noteq> k_id r" by (metis Suc_less_eq distinct.simps(2) length_Cons list.simps(9) nth_map nth_mem length_map)
    with Cons Suc show ?thesis by simp
  qed
qed

lemma rrfScore_pos: "0 < k \<Longrightarrow> 0 < rrfScore k i"
  by (simp add: rrfScore_def add_pos_nonneg)

lemma kwSum_nonneg: "0 < k \<Longrightarrow> 0 \<le> kwSum k i ks x"
  by (induction ks arbitrary: i) (auto simp: less_imp_le[OF rrfScore_pos])

lemma kwSum_pos: "0 < k \<Longrightarrow> x \<in> k_id ` set ks \<Longrightarrow> 0 < kwSum k i ks x"
proof (induction ks arbitrary: i)
  case Nil
  then show ?case by simp
next
  case (Cons r rs)
  show ?case
  proof (cases "k_id r = x")
    case True
    then show ?thesis using rrfScore_pos[OF Cons.prems(1), of i] kwSum_nonneg[OF Cons.prems(1), of "Suc i" rs x] by simp
  next
    case False
    with Cons show ?thesis by auto
  qed
qed

lemma keys_addVector_distinct:
  "distinct (map fst m) \<Longrightarrow> distinct (map fst (addVectorResults k i vs m))"
  by (induction vs arbitrary: i m) (auto simp: distinct_Map_set)

lemma keys_addKeyword_distinct:
  "distinct (map fst m) \<Longrightarrow> distinct (map fst (addKeywordResults k i ks m))"
  by (induction ks arbitrary: i m) (auto simp: distinct_Map_set split: option.splits)

lemma distinct_keys_fuse: "distinct (map fst (fuse k vs ks))"
  by (simp add: fuse_def keys_addKeyword_distinct keys_addVector_distinct)

lemma map_of_sort_key:
  assumes "distinct (map fst xs)"
  shows "map_of (sort_key f xs) = map_of xs"
proof (rule ext)
  fix x
  have d: "distinct (map fst (sort_key f xs))"
    using assms by (simp add: distinct_map)
  show "map_of (sort_key f xs) x = map_of xs x"
  proof (cases "map_of xs x")
    case None
    then have "x \<notin> fst ` set (sort_key f xs)" by (simp add: map_of_eq_None_iff)
    then have "map_of (sort_key f xs) x = None" by (rule map_of_eq_None_iff[THEN iffD2])
    with None show ?thesis by simp
  next
    case (Some y)
    then have "(x, y) \<in> set (sort_key f xs)" using assms by (simp add: map_of_eq_Some_iff)
    then show ?thesis using d Some by (simp add: map_of_eq_Some_iff)
  qed
qed

lemma fusedScore_scoreOf: "fusedScore k vs ks x = scoreOf (fuse k vs ks) x"
  by (simp add: fusedScore_def scoreOf_def Map_get_def sortByScore_def map_of_sort_key distinct_keys_fuse)

lemma scoreOf_Nil: "scoreOf [] x = None"
  by (simp add: scoreOf_def)

lemma fused_both:
  assumes "distinct (map v_id vs)" "distinct (map k_id ks)" "i < length vs" "j < length ks"
    "v_id (vs ! i) = k_id (ks ! j)"
  shows "fusedScore k vs ks (v_id (vs ! i)) = Some (rrfScore k i + rrfScore k j)"
proof -
  have "scoreOf (addVectorResults k 0 vs []) (v_id (vs ! i)) = Some (rrfScore k i)"
    using scoreOf_addVector_distinct[OF assms(1,3), of k 0 "[]"] by simp
  then have b: "base (addVectorResults k 0 vs []) (k_id (ks ! j)) = rrfScore k i"
    using assms(5) by (simp add: base_def)
  have "kwSum k 0 ks (k_id (ks ! j)) = rrfScore k j"
    using kwSum_distinct[OF assms(2,4), of k 0] by simp
  with b show ?thesis using assms(4,5)
    by (simp add: fusedScore_scoreOf fuse_def scoreOf_addKeyword)
qed

lemma fused_vector_only:
  assumes "distinct (map v_id vs)" "i < length vs" "v_id (vs ! i) \<notin> k_id ` set ks"
  shows "fusedScore k vs ks (v_id (vs ! i)) = Some (rrfScore k i)"
  using assms scoreOf_addVector_distinct[OF assms(1,2), of k 0 "[]"]
  by (simp add: fusedScore_scoreOf fuse_def scoreOf_addKeyword)

lemma fused_keyword_only:
  assumes "distinct (map k_id ks)" "j < length ks" "k_id (ks ! j) \<notin> v_id ` set vs"
  shows "fusedScore k vs ks (k_id (ks ! j)) = Some (rrfScore k j)"
proof -
  have "base (addVectorResults k 0 vs []) (k_id (ks ! j)) = 0"
    using assms(3) by (simp add: base_def scoreOf_addVector_absent scoreOf_Nil)
  moreover have "kwSum k 0 ks (k_id (ks ! j)) = rrfScore k j"
    using kwSum_distinct[OF assms(1,2), of k 0] by simp
  ultimately show ?thesis using assms(2)
    by (simp add: fusedScore_scoreOf fuse_def scoreOf_addKeyword)
qed

lemma exampleVector_distinct: "distinct (map v_id exampleVector)"
  by (simp add: exampleVector_def)

lemma exampleKeyword_distinct: "distinct (map k_id exampleKeyword)"
  by (simp add: exampleKeyword_def)

subsection \<open>Keys, order and the sort\<close>

lemma set_keys_Map_set: "fst ` set (Map_set x v m) = insert x (fst ` set m)"
  by (induction m) auto

lemma keys_step:
  "map fst (Map_set x v m) @ filter (\<lambda>y. y \<notin> fst ` set (Map_set x v m)) zs
     = map fst m @ filter (\<lambda>y. y \<notin> fst ` set m) (x # filter (\<lambda>y. y \<noteq> x) zs)"
proof (cases "x \<in> fst ` set m")
  case True
  then have "filter (\<lambda>y. y \<notin> fst ` set m) (filter (\<lambda>y. y \<noteq> x) zs)
      = filter (\<lambda>y. y \<notin> fst ` set m) zs"
    by (auto intro: filter_cong)
  with True show ?thesis
    by (simp add: keys_Map_set set_keys_Map_set insert_absorb)
next
  case False
  have "filter (\<lambda>y. y \<notin> insert x (fst ` set m)) zs
      = filter (\<lambda>y. y \<notin> fst ` set m) (filter (\<lambda>y. y \<noteq> x) zs)"
    by (auto intro: filter_cong)
  with False show ?thesis
    by (simp add: keys_Map_set set_keys_Map_set)
qed

lemma keys_addVector:
  "map fst (addVectorResults k i vs m)
     = map fst m @ filter (\<lambda>y. y \<notin> fst ` set m) (firstSeen (map v_id vs))"
proof (induction vs arbitrary: i m)
  case Nil
  then show ?case by simp
next
  case (Cons r rs)
  show ?case
    by (simp only: addVectorResults.simps Cons.IH list.map firstSeen.simps keys_step)
qed

lemma keys_addKeyword:
  "map fst (addKeywordResults k i ks m)
     = map fst m @ filter (\<lambda>y. y \<notin> fst ` set m) (firstSeen (map k_id ks))"
proof (induction ks arbitrary: i m)
  case Nil
  then show ?case by simp
next
  case (Cons r rs)
  show ?case
    by (cases "Map_get m (k_id r)")
       (simp_all only: addKeywordResults.simps Cons.IH list.map firstSeen.simps keys_step option.case)
qed

lemma set_firstSeen: "set (firstSeen xs) = set xs"
  by (induction xs) auto

lemma firstSeen_append:
  "firstSeen (xs @ ys) = firstSeen xs @ filter (\<lambda>y. y \<notin> set xs) (firstSeen ys)"
proof (induction xs)
  case Nil
  then show ?case by simp
next
  case (Cons x xs)
  have "filter (\<lambda>y. y \<noteq> x) (filter (\<lambda>y. y \<notin> set xs) (firstSeen ys))
      = filter (\<lambda>y. y \<notin> set (x # xs)) (firstSeen ys)"
    by (auto intro: filter_cong)
  with Cons show ?case by simp
qed

lemma keys_fuse: "map fst (fuse k vs ks) = firstSeen (map v_id vs @ map k_id ks)"
proof -
  have v: "map fst (addVectorResults k 0 vs []) = firstSeen (map v_id vs)"
    by (simp add: keys_addVector)
  have "fst ` set (addVectorResults k 0 vs []) = set (map v_id vs)"
    using arg_cong[OF v, of set] by (simp add: set_firstSeen)
  then show ?thesis
    by (simp add: fuse_def keys_addKeyword v firstSeen_append)
qed

lemma slice0_take: "\<exists>n. slice0 e xs = take n xs"
  by (auto simp: slice0_def Let_def)

lemma sortByScore_stable:
  "filter (\<lambda>a. score (snd a) = s) (sortByScore xs) = filter (\<lambda>a. score (snd a) = s) xs"
proof -
  have "filter (\<lambda>a. - score (snd a) = - s) (sort_key (\<lambda>a. - score (snd a)) xs)
      = filter (\<lambda>a. - score (snd a) = - s) xs"
    by (rule sort_key_stable)
  then show ?thesis by (simp add: sortByScore_def)
qed

lemma sortByScore_descending:
  "sorted_wrt (\<lambda>a b. score (snd b) \<le> score (snd a)) (sortByScore xs)"
proof -
  have "sorted (map (\<lambda>a. - score (snd a)) (sort_key (\<lambda>a. - score (snd a)) xs))"
    by (rule sorted_sort_key)
  then show ?thesis by (simp add: sortByScore_def sorted_map)
qed

lemma keys_filter_score:
  assumes "distinct (map fst F)"
  shows "map fst (filter (\<lambda>a. score (snd a) = s) F)
       = filter (\<lambda>x. scoreOf F x = Some s) (map fst F)"
proof -
  have "\<forall>a \<in> set F. (score (snd a) = s) = (scoreOf F (fst a) = Some s)"
  proof
    fix a assume "a \<in> set F"
    then have "(fst a, snd a) \<in> set F" by simp
    with assms have "map_of F (fst a) = Some (snd a)" by (simp only: map_of_eq_Some_iff)
    then show "(score (snd a) = s) = (scoreOf F (fst a) = Some s)" by (simp add: scoreOf_def)
  qed
  then have "filter (\<lambda>a. score (snd a) = s) F = filter (\<lambda>a. scoreOf F (fst a) = Some s) F"
    by (auto intro: filter_cong)
  then show ?thesis by (simp add: filter_map comp_def)
qed

subsection \<open>Empty fused lists\<close>

lemma length_sortByScore: "length (sortByScore xs) = length xs"
  by (simp add: sortByScore_def)

lemma fuse_Nil_iff: "fuse k vs ks = [] \<longleftrightarrow> vs = [] \<and> ks = []"
proof -
  have "set (map fst (fuse k vs ks)) = set (map v_id vs) \<union> set (map k_id ks)"
    by (simp only: keys_fuse set_firstSeen set_append)
  then show ?thesis by (cases vs; cases ks) auto
qed

lemma slice0_Nil_iff: "0 < toInteger e \<Longrightarrow> slice0 e xs = [] \<longleftrightarrow> xs = []"
  by (cases xs) (auto simp: slice0_def Let_def min_def)

lemma sortByScore_Nil_iff: "sortByScore xs = [] \<longleftrightarrow> xs = []"
  using length_sortByScore[of xs] by (metis length_0_conv)

lemma sortedResults_10_Nil_iff: "sortedResults k 10 vs ks = [] \<longleftrightarrow> vs = [] \<and> ks = []"
proof -
  have "0 < toInteger 10" by (simp add: toInteger_def)
  then show ?thesis
    by (simp add: sortedResults_def slice0_Nil_iff sortByScore_Nil_iff fuse_Nil_iff)
qed

subsection \<open>Option defaults\<close>

lemma orDefault_zero: "orDefault (Some 0) d = d" "orDefault None d = d"
  by (simp_all add: orDefault_def)

lemma orDefault_default: "d \<noteq> 0 \<Longrightarrow> orDefault (Some d) d = d"
  by (simp add: orDefault_def)

lemma twoVector_sorted:
  "sortedResults 60 10 twoVector []
   = [(''A'', \<lparr>score = 1 / 61, r_entityType = ''person'', vectorScore = Some (9 / 10), bm25Score = None\<rparr>),
      (''B'', \<lparr>score = 1 / 62, r_entityType = ''person'', vectorScore = Some (4 / 5), bm25Score = None\<rparr>)]"
  by (simp add: sortedResults_def slice0_def toInteger_def sortByScore_def fuse_def rrfScore_def twoVector_def)

subsection \<open>Hydration\<close>

lemma hybrid_hydrated:
  assumes "vectorQuery neo4j \<lfloor>orDefault (limit options) 10 * 2\<rfloor> qv = Inr vs"
    and "keywordQuery neo4j qt \<lfloor>orDefault (limit options) 10 * 2\<rfloor> = Inr ks"
    and "sortedResults (orDefault (rrfK options) 60) (orDefault (limit options) 10) vs ks \<noteq> []"
    and "entityQuery neo4j
           (map fst (sortedResults (orDefault (rrfK options) 60) (orDefault (limit options) 10) vs ks))
         = Inr rows"
    and "relationQuery neo4j
           (map fst (sortedResults (orDefault (rrfK options) 60) (orDefault (limit options) 10) vs ks))
         = Inr rels"
  shows "snd (hybridSearchWithRRF host neo4j qv qt options)
      = Inr \<lparr>entities = map (toEntity host) rows, relations = map toRelation rels,
             total = length rows\<rparr>"
  using assms by (simp add: hybridSearchWithRRF_def Let_def)

lemma noOptions_defaults:
  "orDefault (limit noOptions) 10 = 10" "orDefault (rrfK noOptions) 60 = 60"
  by (simp_all add: noOptions_def orDefault_def)

lemma candidate_queries:
  "vectorQuery (onGraph g (candidateClient vs ks)) 20 q = Inr (take 20 vs)"
  "keywordQuery (onGraph g (candidateClient vs ks)) t 20 = Inr (take 20 ks)"
  "entityQuery (onGraph g (candidateClient vs ks)) names = Inr (entityStatement g names)"
  "relationQuery (onGraph g (candidateClient vs ks)) names = Inr (relationStatement g names)"
  by (simp_all add: onGraph_def candidateClient_def)

lemma take_examples: "take 20 twoVector = twoVector" "take 20 vectorBA = vectorBA"
  by (simp_all add: twoVector_def vectorBA_def)

lemma twoVector_names: "map fst (sortedResults 60 10 twoVector []) = [''A'', ''B'']"
  by (simp add: twoVector_sorted)

lemma vectorBA_names: "map fst (sortedResults 60 10 vectorBA []) = [''B'', ''A'']"
  by (simp add: sortedResults_def slice0_def toInteger_def sortByScore_def fuse_def rrfScore_def
      vectorBA_def)

subsection \<open>The host's arithmetic\<close>

lemma filter_insertDesc_eq:
  "key a = s \<Longrightarrow> filter (\<lambda>b. key b = s) (insertDesc key a bs) = a # filter (\<lambda>b. key b = s) bs"
  by (induction bs) auto

lemma filter_insertDesc_neq:
  "key a \<noteq> s \<Longrightarrow> filter (\<lambda>b. key b = s) (insertDesc key a bs) = filter (\<lambda>b. key b = s) bs"
  by (induction bs) auto

lemma sortDesc_stable: "filter (\<lambda>b. key b = s) (sortDesc key xs) = filter (\<lambda>b. key b = s) xs"
proof (induction xs)
  case Nil
  then show ?case by (simp add: sortDesc_def)
next
  case (Cons a xs)
  then show ?case
    by (cases "key a = s") (simp_all add: sortDesc_def filter_insertDesc_eq filter_insertDesc_neq)
qed

lemma set_insertDesc: "set (insertDesc key a bs) = insert a (set bs)"
  by (induction bs) auto

lemma sorted_insertDesc:
  "sorted_wrt (\<lambda>a b. key b \<le> key a) bs \<Longrightarrow> sorted_wrt (\<lambda>a b. key b \<le> key a) (insertDesc key a bs)"
  by (induction bs) (auto simp: set_insertDesc)

lemma sortDesc_descending: "sorted_wrt (\<lambda>a b. key b \<le> key a) (sortDesc key xs)"
  by (induction xs) (simp_all add: sortDesc_def sorted_insertDesc)

lemma length_insertDesc: "length (insertDesc key a bs) = Suc (length bs)"
  by (induction bs) auto

lemma length_sortDesc: "length (sortDesc key xs) = length xs"
  by (induction xs) (simp_all add: sortDesc_def length_insertDesc)

lemma map_insertDesc: "map h (insertDesc (\<lambda>a. key (h a)) a bs) = insertDesc key (h a) (map h bs)"
  by (induction bs) auto

lemma map_sortDesc: "map h (sortDesc (\<lambda>a. key (h a)) xs) = sortDesc key (map h xs)"
  by (induction xs) (simp_all add: sortDesc_def map_insertDesc)

lemma sortDesc_sort_key:
  fixes key :: "'a \<Rightarrow> number"
  shows "sortDesc key xs = sort_key (\<lambda>a. - key a) xs"
proof -
  have "insertDesc key a bs = insort_key (\<lambda>a. - key a) a bs" for a bs
    by (induction bs) auto
  then show ?thesis
    by (induction xs) (simp_all add: sortDesc_def)
qed

lemma map_Map_set:
  "map (\<lambda>a. (fst a, f (snd a))) (Map_set x v m) = Map_set x (f v) (map (\<lambda>a. (fst a, f (snd a))) m)"
  by (induction m) auto

lemma Map_get_map:
  "Map_get (map (\<lambda>a. (fst a, f (snd a))) m) x = map_option f (Map_get m x)"
  by (induction m) (auto simp: Map_get_def)

lemma slice0_map: "map f (slice0 e xs) = slice0 e (map f xs)"
  by (simp add: slice0_def Let_def take_map)

lemma distinct_firstSeen: "distinct (firstSeen xs)"
  by (induction xs) (auto simp: set_firstSeen)

lemma keys_addVectorWith:
  "map fst (addVectorResultsWith ar k i vs m)
     = map fst m @ filter (\<lambda>y. y \<notin> fst ` set m) (firstSeen (map v_id vs))"
proof (induction vs arbitrary: i m)
  case Nil
  then show ?case by simp
next
  case (Cons r rs)
  show ?case
    by (simp only: addVectorResultsWith.simps Cons.IH list.map firstSeen.simps keys_step)
qed

lemma keys_addKeywordWith:
  "map fst (addKeywordResultsWith ar k i ks m)
     = map fst m @ filter (\<lambda>y. y \<notin> fst ` set m) (firstSeen (map k_id ks))"
proof (induction ks arbitrary: i m)
  case Nil
  then show ?case by simp
next
  case (Cons r rs)
  show ?case
    by (cases "Map_get m (k_id r)")
       (simp_all only: addKeywordResultsWith.simps Cons.IH list.map firstSeen.simps keys_step option.case)
qed

lemma keys_fuseWith: "map fst (fuseWith ar k vs ks) = firstSeen (map v_id vs @ map k_id ks)"
proof -
  have v: "map fst (addVectorResultsWith ar k 0 vs []) = firstSeen (map v_id vs)"
    by (simp add: keys_addVectorWith)
  have "fst ` set (addVectorResultsWith ar k 0 vs []) = set (map v_id vs)"
    using arg_cong[OF v, of set] by (simp add: set_firstSeen)
  then show ?thesis
    by (simp add: fuseWith_def keys_addKeywordWith v firstSeen_append)
qed

lemma keys_filter_h_score:
  assumes "distinct (map fst F)"
  shows "map fst (filter (\<lambda>a. h_score (snd a) = s) F)
       = filter (\<lambda>x. map_option h_score (Map_get F x) = Some s) (map fst F)"
proof -
  have "\<forall>a \<in> set F. (h_score (snd a) = s) = (map_option h_score (Map_get F (fst a)) = Some s)"
  proof
    fix a assume "a \<in> set F"
    then have "(fst a, snd a) \<in> set F" by simp
    with assms have "map_of F (fst a) = Some (snd a)" by (simp only: map_of_eq_Some_iff)
    then show "(h_score (snd a) = s) = (map_option h_score (Map_get F (fst a)) = Some s)"
      by (simp add: Map_get_def)
  qed
  then have "filter (\<lambda>a. h_score (snd a) = s) F
      = filter (\<lambda>a. map_option h_score (Map_get F (fst a)) = Some s) F"
    by (intro filter_cong refl) blast
  then show ?thesis by (simp only: filter_map comp_def)
qed

lemma ranking_addVectorWith:
  "ranking (addVectorResultsWith ar k i vs m) = vectorScores ar k i (map v_id vs) (ranking m)"
  by (induction vs arbitrary: i m) (simp_all add: ranking_def map_Map_set)

lemma ranking_addKeywordWith:
  "ranking (addKeywordResultsWith ar k i ks m) = keywordScores ar k i (map k_id ks) (ranking m)"
proof (induction ks arbitrary: i m)
  case Nil
  then show ?case by simp
next
  case (Cons r rs)
  show ?case
    by (cases "Map_get m (k_id r)")
       (simp_all add: Cons.IH, simp_all add: ranking_def map_Map_set Map_get_map)
qed

lemma ranking_sortedResultsWith:
  fixes ar :: "'s::linorder Arithmetic"
  shows "ranking (sortedResultsWith ar k lmt vs ks) = rankingOfIds ar k lmt (map v_id vs) (map k_id ks)"
proof -
  have "ranking (sortByScoreWith F) = sortDesc snd (ranking F)" for F :: "(string, 's::linorder HostEntry) jsmap"
    unfolding ranking_def sortByScoreWith_def
    using map_sortDesc[of "\<lambda>a. (fst a, h_score (snd a))" snd F] by simp
  moreover have "ranking (slice0 lmt F) = slice0 lmt (ranking F)" for F :: "(string, 's::linorder HostEntry) jsmap"
    by (simp add: ranking_def slice0_map)
  moreover have "ranking (fuseWith ar k vs ks)
      = keywordScores ar k 0 (map k_id ks) (vectorScores ar k 0 (map v_id vs) [])"
    by (simp add: fuseWith_def ranking_addKeywordWith ranking_addVectorWith) (simp add: ranking_def)
  ultimately show ?thesis
    by (simp add: sortedResultsWith_def rankingOfIds_def)
qed

lemma exact_addVector:
  "map (\<lambda>a. (fst a, toHostEntry (snd a))) (addVectorResults k i vs m)
     = addVectorResultsWith exactArithmetic k i vs (map (\<lambda>a. (fst a, toHostEntry (snd a))) m)"
  by (induction vs arbitrary: i m) (simp_all add: map_Map_set, simp_all add: toHostEntry_def exactArithmetic_def)

lemma exact_addKeyword:
  "map (\<lambda>a. (fst a, toHostEntry (snd a))) (addKeywordResults k i ks m)
     = addKeywordResultsWith exactArithmetic k i ks (map (\<lambda>a. (fst a, toHostEntry (snd a))) m)"
proof (induction ks arbitrary: i m)
  case Nil
  then show ?case by simp
next
  case (Cons r rs)
  show ?case
    by (cases "Map_get m (k_id r)")
       (simp_all add: Cons.IH map_Map_set Map_get_map, simp_all add: toHostEntry_def exactArithmetic_def)
qed

lemma exact_sortedResults:
  "map (\<lambda>a. (fst a, toHostEntry (snd a))) (sortedResults k lmt vs ks)
     = sortedResultsWith exactArithmetic k lmt vs ks"
proof -
  have "map (\<lambda>a. (fst a, toHostEntry (snd a))) (sortByScore F)
      = sortByScoreWith (map (\<lambda>a. (fst a, toHostEntry (snd a))) F)" for F
  proof -
    have "sortByScore F = sortDesc (\<lambda>a. h_score (snd (fst a, toHostEntry (snd a)))) F"
      by (simp add: sortByScore_def sortDesc_sort_key toHostEntry_def)
    then show ?thesis
      unfolding sortByScoreWith_def
      using map_sortDesc[of "\<lambda>a. (fst a, toHostEntry (snd a))" "\<lambda>a. h_score (snd a)" F] by simp
  qed
  then show ?thesis
    by (simp add: sortedResults_def sortedResultsWith_def slice0_map fuse_def fuseWith_def
        exact_addKeyword exact_addVector)
qed

lemma rounding_exact:
  "ranking (sortedResultsWith exactArithmetic 9 10 roundingVector roundingKeyword)
     = [(''X'', 1 / 6), (''Y'', 1 / 6), (''v0'', 1 / 10), (''v1'', 1 / 11), (''w1'', 1 / 11),
        (''v3'', 1 / 13), (''v4'', 1 / 14)]"
  by (simp add: ranking_def sortedResultsWith_def slice0_def toInteger_def sortByScoreWith_def
      sortDesc_def fuseWith_def Map_get_def exactArithmetic_def rrfScore_def
      roundingVector_def roundingKeyword_def)

text \<open>
  In doubles \<open>Y\<close>, 0.16666666666666669, is in front of \<open>X\<close>, 0.16666666666666666; \<open>v1\<close> and
  \<open>w1\<close> tie at the double next to \<open>1/11\<close>.
\<close>

lemma rounding_double:
  "ranking (sortedResultsWith doubleArithmetic 9 10 roundingVector roundingKeyword)
     = [(''Y'', Finite (3002399751580331 / 18014398509481984)),
        (''X'', Finite (6004799503160661 / 36028797018963968)),
        (''v0'', Finite (3602879701896397 / 36028797018963968)),
        (''v1'', Finite (3275345183542179 / 36028797018963968)),
        (''w1'', Finite (3275345183542179 / 36028797018963968)),
        (''v3'', Finite (1385722962267845 / 18014398509481984)),
        (''v4'', Finite (2573485501354569 / 36028797018963968))]"
  by code_simp

text \<open>A vector row and a keyword row, each first in its list, at the default \<open>k = 60\<close>.\<close>

lemma tie_double:
  "ranking (sortedResultsWith doubleArithmetic 60 10 tieVector tieKeyword)
     = [(''A'', Finite (4725088133634619 / 288230376151711744)), (''D'', Finite (4725088133634619 / 288230376151711744))]"
  by code_simp

text \<open>
  At the default \<open>k = 60\<close>, an identifier at the vector rank 11 and the keyword rank 27
  scores \<open>1/72 + 1/88\<close>, and one at the ranks 38 and 5 scores \<open>1/99 + 1/66\<close>. The two sums
  are equal in exact arithmetic; in doubles the first is 0.025252525252525252 and the
  second 0.025252525252525256.
\<close>

lemma default_k_exact:
  "hostAdd exactArithmetic (hostRrf exactArithmetic 60 11) (hostRrf exactArithmetic 60 27) = 5 / 198"
  "hostAdd exactArithmetic (hostRrf exactArithmetic 60 38) (hostRrf exactArithmetic 60 5) = 5 / 198"
  by (simp_all add: exactArithmetic_def rrfScore_def)

lemma default_k_double:
  "hostAdd doubleArithmetic (hostRrf doubleArithmetic 60 11) (hostRrf doubleArithmetic 60 27)
     = Finite (7278544852315953 / 288230376151711744)"
  "hostAdd doubleArithmetic (hostRrf doubleArithmetic 60 38) (hostRrf doubleArithmetic 60 5)
     = Finite (3639272426157977 / 144115188075855872)"
  "Finite (7278544852315953 / 288230376151711744) < Finite (3639272426157977 / 144115188075855872)"
  by code_simp+

text \<open>
  With \<open>k = - 1\<close> the first rank divides by zero: its score is \<^verbatim>\<open>Infinity\<close> in doubles, and
  it is first.
\<close>

lemma minus_one_k_double:
  "ranking (sortedResultsWith doubleArithmetic (- 1) 10 twoVector [])
     = [(''A'', PosInfinity), (''B'', Finite 1)]"
  by code_simp

subsection \<open>The keyword statement\<close>

lemma CONTAINS_sublist: "CONTAINS s q \<longleftrightarrow> sublist q s"
  by (induction s) (auto simp: sublist_Cons_right)







text \<open>The example nodes, as stored, under the reading \<open>singleValue\<close>.\<close>

lemma example_bm25:
  "bm25 singleValue teamBadass ''TeamBadass'' = 2"
  "bm25 singleValue willie ''TeamBadass'' = 3 / 2"
  "bm25 singleValue alice ''TeamBadass'' = 1"
  "bm25 singleValue teamNotes ''TeamBadass'' = 5 / 2"
  by (simp_all add: bm25_def nameBoost_def obsMatches_def singleValue_def teamBadass_def willie_def
      alice_def teamNotes_def stringify_def quoted_def)



text \<open>
  Read as one value, the stored text of \<open>willie\<close> counts once, whatever the number of
  the observations in it that contain the query text: the score is 1.5 where the rule of
  the specification, on the three observations, gives 2.5.
\<close>

lemma json_text_counts_once:
  "n_observations willie
     = stringify [''works with TeamBadass'', ''TeamBadass lead'', ''joined TeamBadass'']
   \<and> k_bm25Score (keywordRow singleValue willie ''TeamBadass'') = 3 / 2
   \<and> specScore ''Willie'' [''works with TeamBadass'', ''TeamBadass lead'', ''joined TeamBadass'']
        ''TeamBadass'' = 5 / 2"
proof -
  have "specScore ''Willie'' [''works with TeamBadass'', ''TeamBadass lead'', ''joined TeamBadass'']
        ''TeamBadass'' = 5 / 2"
    by (simp add: specScore_def flip: CONTAINS_sublist)
  then show ?thesis by (simp add: keywordRow_def example_bm25) (simp add: willie_def)
qed

subsection \<open>Rounding to the nearest double\<close>

text \<open>
  What \<open>toDouble\<close> gives is a double nearest to its argument: a finite result is
  \<open>m * 2 ^ e\<close> with \<open>e\<close> the exponent of the unit of the argument, within half a unit of
  it, and with an even \<open>m\<close> when it is half a unit away.
\<close>

lemma floorLog2_bounds:
  "1 \<le> n \<Longrightarrow> 0 \<le> floorLog2 n \<and> 2 ^ nat (floorLog2 n) \<le> n \<and> n < 2 ^ nat (floorLog2 n + 1)"
proof (induction n rule: floorLog2.induct)
  case (1 n)
  show ?case
  proof (cases "n < 2")
    case True
    with "1.prems" have "n = 1" by simp
    then show ?thesis by (simp add: floorLog2.simps)
  next
    case False
    then have h: "1 \<le> n div 2" by simp
    from "1.IH"[OF False h] have ih: "0 \<le> floorLog2 (n div 2)"
      "2 ^ nat (floorLog2 (n div 2)) \<le> n div 2" "n div 2 < 2 ^ nat (floorLog2 (n div 2) + 1)"
      by simp_all
    have e: "floorLog2 n = floorLog2 (n div 2) + 1"
      using False by (subst floorLog2.simps) simp
    have p1: "(2::int) ^ nat (floorLog2 n) = 2 * 2 ^ nat (floorLog2 (n div 2))"
      using ih(1) by (simp add: e nat_add_distrib)
    have p2: "(2::int) ^ nat (floorLog2 n + 1) = 2 * 2 ^ nat (floorLog2 (n div 2) + 1)"
      using ih(1) by (simp add: e nat_add_distrib)
    from ih(2) have a: "2 * 2 ^ nat (floorLog2 (n div 2)) \<le> n" by linarith
    from ih(3) have b: "n < 2 * 2 ^ nat (floorLog2 (n div 2) + 1)" by linarith
    from ih(1) have c: "0 \<le> floorLog2 n" by (simp add: e)
    from a b c show ?thesis by (simp only: p1 p2)
  qed
qed

lemma pow2_powi: "pow2 e = 2 powi e"
  by (simp add: pow2_def power_int_def field_simps)

lemma pow2_pos: "0 < pow2 e"
  by (simp add: pow2_powi)

lemma roundHalfEven_nearest:
  "\<bar>y - of_int (roundHalfEven y)\<bar> \<le> 1 / 2"
  "\<bar>y - of_int (roundHalfEven y)\<bar> = 1 / 2 \<Longrightarrow> even (roundHalfEven y)"
  unfolding roundHalfEven_def Let_def
  by (auto simp: abs_if not_less split: if_splits) linarith+


lemma floorLog2_powi:
  assumes "1 \<le> n"
  shows "(2::rat) powi floorLog2 n \<le> of_int n" "of_int n < (2::rat) powi (floorLog2 n + 1)"
proof -
  from floorLog2_bounds[OF assms] have f: "0 \<le> floorLog2 n"
    and l: "2 ^ nat (floorLog2 n) \<le> n" and u: "n < 2 ^ nat (floorLog2 n + 1)" by simp_all
  from l have "(of_int (2 ^ nat (floorLog2 n)) :: rat) \<le> of_int n" by (simp only: of_int_le_iff)
  then show "(2::rat) powi floorLog2 n \<le> of_int n" using f by (simp add: power_int_def)
  from u have "(of_int n :: rat) < of_int (2 ^ nat (floorLog2 n + 1))" by (simp only: of_int_less_iff)
  then show "of_int n < (2::rat) powi (floorLog2 n + 1)" using f by (simp add: power_int_def)
qed

lemma exponentOf_bounds:
  assumes "x \<noteq> 0"
  shows "pow2 (exponentOf x) \<le> \<bar>x\<bar>" "\<bar>x\<bar> < pow2 (exponentOf x + 1)"
proof -
  obtain p q where pq: "quotient_of x = (p, q)" by (cases "quotient_of x")
  then have q: "0 < q" and x: "x = of_int p / of_int q"
    using quotient_of_denom_pos quotient_of_div by blast+
  from assms x have p: "1 \<le> \<bar>p\<bar>" by auto
  from q have q1: "1 \<le> q" by simp
  let ?a = "floorLog2 \<bar>p\<bar>" and ?b = "floorLog2 q"
  note A = floorLog2_powi[OF p] and B = floorLog2_powi[OF q1]
  have ax: "\<bar>x\<bar> = of_int \<bar>p\<bar> / of_int q" using q by (simp add: x)
  have qpos: "(0::rat) < of_int q" using q by simp
  have pw: "(0::rat) < 2 powi ?a" "(0::rat) < 2 powi ?b" by simp_all
  have up: "\<bar>x\<bar> < 2 powi (?a - ?b + 1)"
  proof -
    have "of_int \<bar>p\<bar> / of_int q < (2::rat) powi (?a + 1) / 2 powi ?b"
      using A(2) pw(2) B(1) by (intro frac_less) simp_all
    also have "\<dots> = 2 powi (?a - ?b + 1)"
      by (simp add: power_int_diff power_int_add)
    finally show ?thesis by (simp only: ax)
  qed
  have lo: "2 powi (?a - ?b - 1) < \<bar>x\<bar>"
  proof -
    have "(2::rat) powi (?a - ?b - 1) = 2 powi ?a / 2 powi (?b + 1)"
      by (simp add: power_int_diff power_int_add)
    also have "\<dots> < of_int \<bar>p\<bar> / of_int q"
      using pw(1) A(1) qpos B(2) by (intro frac_less2) simp_all
    finally show ?thesis by (simp only: ax)
  qed
  have e: "exponentOf x = (if 2 powi (?a - ?b) \<le> \<bar>x\<bar> then ?a - ?b else ?a - ?b - 1)"
    by (simp add: exponentOf_def pq Let_def pow2_powi)
  show "pow2 (exponentOf x) \<le> \<bar>x\<bar>"
    using lo by (simp add: e pow2_powi)
  show "\<bar>x\<bar> < pow2 (exponentOf x + 1)"
    using up by (auto simp add: e pow2_powi not_le)
qed


lemma toDouble_nearest:
  assumes "toDouble x = Finite y"
  defines "e \<equiv> max (exponentOf x - 52) (- 1074)"
  shows "\<exists>m. y = of_int m * pow2 e \<and> \<bar>m\<bar> \<le> 2 ^ 53 \<and> - 1074 \<le> e \<and> e \<le> 971
             \<and> (e = 971 \<longrightarrow> \<bar>m\<bar> < 2 ^ 53)
             \<and> \<bar>x - y\<bar> \<le> pow2 e / 2 \<and> (\<bar>x - y\<bar> = pow2 e / 2 \<longrightarrow> even m)"
proof (cases "x = 0")
  case True
  then have "y = 0" using assms(1) by (simp add: toDouble_def)
  moreover have "e \<le> 971" unfolding e_def True
    by (simp add: exponentOf_def Let_def floorLog2.simps pow2_def)
  moreover have "- 1074 \<le> e" unfolding e_def by simp
  ultimately show ?thesis using True pow2_pos[of e]
    by (intro exI[of _ 0]) (auto simp: less_le)
next
  case False
  let ?m = "roundHalfEven (x / pow2 e)"
  have u: "0 < pow2 e" by (rule pow2_pos)
  from assms(1) False have no: "\<not> (971 < e \<or> (e = 971 \<and> 2 ^ 53 \<le> \<bar>?m\<bar>))"
    and y: "y = of_int ?m * pow2 e"
    by (auto simp: toDouble_def Let_def e_def split: if_splits)
  have d: "x - y = (x / pow2 e - of_int ?m) * pow2 e"
    using u by (simp add: y field_simps)
  have ad: "\<bar>x - y\<bar> = \<bar>x / pow2 e - of_int ?m\<bar> * pow2 e"
    using u by (simp add: d abs_mult)
  have n1: "\<bar>x - y\<bar> \<le> pow2 e / 2"
    using roundHalfEven_nearest(1)[of "x / pow2 e"] u
    by (simp add: ad mult_right_mono field_simps)
  have n2: "\<bar>x - y\<bar> = pow2 e / 2 \<longrightarrow> even ?m"
  proof
    assume "\<bar>x - y\<bar> = pow2 e / 2"
    then have "\<bar>x / pow2 e - of_int ?m\<bar> = 1 / 2" using u by (simp add: ad field_simps)
    then show "even ?m" by (rule roundHalfEven_nearest(2))
  qed
  have "\<bar>x\<bar> < pow2 (exponentOf x + 1)" by (rule exponentOf_bounds(2)[OF False])
  also have "\<dots> \<le> pow2 (e + 53)"
    unfolding pow2_powi e_def by (intro power_int_increasing) simp_all
  also have "\<dots> = 2 ^ 53 * pow2 e"
    by (simp add: pow2_powi power_int_add)
  finally have "\<bar>x / pow2 e\<bar> < 2 ^ 53" using u by (simp add: field_simps abs_if split: if_splits)
  with roundHalfEven_nearest(1)[of "x / pow2 e"]
  have "\<bar>(of_int ?m :: rat)\<bar> < 2 ^ 53 + 1" by linarith
  then have "(of_int \<bar>?m\<bar> :: rat) < of_int (2 ^ 53 + 1)" by simp
  then have m: "\<bar>?m\<bar> \<le> 2 ^ 53" by (simp only: of_int_less_iff)
  have l: "- 1074 \<le> e" unfolding e_def by simp
  from no have h: "e \<le> 971" and t: "e = 971 \<longrightarrow> \<bar>?m\<bar> < 2 ^ 53" by auto
  from y m l h t n1 n2 show ?thesis by (intro exI[of _ ?m]) blast
qed

subsection \<open>C1: the fused score\<close>

text \<open>
  C1, as written, fails when an identifier occurs twice in one list: a second
  keyword row of the same identifier adds its positional score to the entry, so an
  identifier at rank 0 of the keyword list alone does not score \<open>1 / (k + 1)\<close>.
\<close>

theorem rrf_fused_score_duplicate_counterexample:
  "k_id (duplicateKeyword ! 0) = ''A'' \<and> ''A'' \<notin> v_id ` set []
   \<and> fusedScore 60 [] duplicateKeyword ''A'' = Some (1 / 61 + 1 / 62)
   \<and> fusedScore 60 [] duplicateKeyword ''A'' \<noteq> Some (1 / (60 + of_nat 0 + 1))"
  by (simp add: fusedScore_def sortByScore_def fuse_def duplicateKeyword_def rrfScore_def Map_get_def)

text \<open>
  C1 (amended). When no identifier occurs twice within the vector list or within the
  keyword list, a candidate at zero-based rank \<open>i\<close> of the vector list and rank \<open>j\<close> of
  the keyword list has fused score \<open>1 / (k + i + 1) + 1 / (k + j + 1)\<close>, and a candidate
  in one list only, at rank \<open>i\<close>, has fused score \<open>1 / (k + i + 1)\<close>; each quotient with
  a denominator other than zero.
\<close>

theorem rrf_fused_score_formula:
  assumes "distinct (map v_id vs)" and "distinct (map k_id ks)"
  shows "(\<forall>i j. i < length vs \<and> j < length ks \<and> v_id (vs ! i) = k_id (ks ! j)
            \<and> k + of_nat i + 1 \<noteq> 0 \<and> k + of_nat j + 1 \<noteq> 0 \<longrightarrow>
          fusedScore k vs ks (v_id (vs ! i))
            = Some (1 / (k + of_nat i + 1) + 1 / (k + of_nat j + 1)))
       \<and> (\<forall>i. i < length vs \<and> v_id (vs ! i) \<notin> k_id ` set ks \<and> k + of_nat i + 1 \<noteq> 0 \<longrightarrow>
          fusedScore k vs ks (v_id (vs ! i)) = Some (1 / (k + of_nat i + 1)))
       \<and> (\<forall>j. j < length ks \<and> k_id (ks ! j) \<notin> v_id ` set vs \<and> k + of_nat j + 1 \<noteq> 0 \<longrightarrow>
          fusedScore k vs ks (k_id (ks ! j)) = Some (1 / (k + of_nat j + 1)))"
proof (intro conjI allI impI)
  fix i j
  assume "i < length vs \<and> j < length ks \<and> v_id (vs ! i) = k_id (ks ! j)
            \<and> k + of_nat i + 1 \<noteq> 0 \<and> k + of_nat j + 1 \<noteq> 0"
  then have "fusedScore k vs ks (v_id (vs ! i)) = Some (rrfScore k i + rrfScore k j)"
    using assms by (intro fused_both) simp_all
  then show "fusedScore k vs ks (v_id (vs ! i))
      = Some (1 / (k + of_nat i + 1) + 1 / (k + of_nat j + 1))"
    by (simp add: rrfScore_def)
next
  fix i
  assume "i < length vs \<and> v_id (vs ! i) \<notin> k_id ` set ks \<and> k + of_nat i + 1 \<noteq> 0"
  then have "fusedScore k vs ks (v_id (vs ! i)) = Some (rrfScore k i)"
    using assms by (intro fused_vector_only) simp_all
  then show "fusedScore k vs ks (v_id (vs ! i)) = Some (1 / (k + of_nat i + 1))"
    by (simp add: rrfScore_def)
next
  fix j
  assume "j < length ks \<and> k_id (ks ! j) \<notin> v_id ` set vs \<and> k + of_nat j + 1 \<noteq> 0"
  then have "fusedScore k vs ks (k_id (ks ! j)) = Some (rrfScore k j)"
    using assms by (intro fused_keyword_only) simp_all
  then show "fusedScore k vs ks (k_id (ks ! j)) = Some (1 / (k + of_nat j + 1))"
    by (simp add: rrfScore_def)
qed

theorem rrf_fused_score_formula_witness:
  "distinct (map v_id exampleVector) \<and> distinct (map k_id exampleKeyword)
   \<and> fusedScore 60 exampleVector exampleKeyword ''B'' = Some (1 / 62 + 1 / 61)
   \<and> fusedScore 60 exampleVector exampleKeyword ''A'' = Some (1 / 61)
   \<and> fusedScore 60 exampleVector exampleKeyword ''D'' = Some (1 / 62)"
proof -
  note t = rrf_fused_score_formula[OF exampleVector_distinct exampleKeyword_distinct, of 60]
  have b: "fusedScore 60 exampleVector exampleKeyword (v_id (exampleVector ! 1))
      = Some (1 / (60 + of_nat 1 + 1) + 1 / (60 + of_nat 0 + 1))"
    by (rule t[THEN conjunct1, rule_format, of 1 0]) (simp add: exampleVector_def exampleKeyword_def)
  have a: "fusedScore 60 exampleVector exampleKeyword (v_id (exampleVector ! 0))
      = Some (1 / (60 + of_nat 0 + 1))"
    by (rule t[THEN conjunct2, THEN conjunct1, rule_format, of 0]) (simp add: exampleVector_def exampleKeyword_def)
  have d: "fusedScore 60 exampleVector exampleKeyword (k_id (exampleKeyword ! 1))
      = Some (1 / (60 + of_nat 1 + 1))"
    by (rule t[THEN conjunct2, THEN conjunct2, rule_format, of 1]) (simp add: exampleVector_def exampleKeyword_def)
  from a b d show ?thesis
    by (simp add: exampleVector_distinct exampleKeyword_distinct) (simp add: exampleVector_def exampleKeyword_def)
qed

subsection \<open>C2: the both-lists boost\<close>

text \<open>
  C2. For \<open>k > 0\<close>, a candidate present in both lists has a fused score strictly greater
  than the fused score the vector list alone gives it and than the one the keyword list
  alone gives it; it is their sum. No condition on the lists.
\<close>

theorem both_lists_boost:
  assumes "0 < k" and "x \<in> v_id ` set vs" and "x \<in> k_id ` set ks"
  shows "\<exists>a b c. fusedScore k vs ks x = Some a \<and> fusedScore k vs [] x = Some b
           \<and> fusedScore k [] ks x = Some c \<and> a = b + c \<and> b < a \<and> c < a"
proof -
  from scoreOf_addVector_present[OF assms(2), of k 0 "[]"] obtain j where
    j: "scoreOf (addVectorResults k 0 vs []) x = Some (rrfScore k j)" by auto
  let ?b = "rrfScore k j" and ?c = "kwSum k 0 ks x"
  have bpos: "0 < ?b" by (rule rrfScore_pos[OF assms(1)])
  have cpos: "0 < ?c" by (rule kwSum_pos[OF assms(1,3)])
  have a: "fusedScore k vs ks x = Some (?b + ?c)"
    using assms(3) j by (simp add: fusedScore_scoreOf fuse_def scoreOf_addKeyword base_def)
  have b: "fusedScore k vs [] x = Some ?b"
    using j by (simp add: fusedScore_scoreOf fuse_def)
  have c: "fusedScore k [] ks x = Some ?c"
    using assms(3) by (simp add: fusedScore_scoreOf fuse_def scoreOf_addKeyword base_def scoreOf_Nil)
  from a b c bpos cpos show ?thesis by simp
qed

theorem both_lists_boost_witness:
  "(0::number) < 60 \<and> ''B'' \<in> v_id ` set exampleVector \<and> ''B'' \<in> k_id ` set exampleKeyword
   \<and> (\<exists>a b c. fusedScore 60 exampleVector exampleKeyword ''B'' = Some a
         \<and> fusedScore 60 exampleVector [] ''B'' = Some b
         \<and> fusedScore 60 [] exampleKeyword ''B'' = Some c \<and> a = b + c \<and> b < a \<and> c < a)"
proof -
  have k: "(0::number) < 60" by simp
  have v: "''B'' \<in> v_id ` set exampleVector" by (simp add: exampleVector_def)
  have w: "''B'' \<in> k_id ` set exampleKeyword" by (simp add: exampleKeyword_def)
  from both_lists_boost[OF k v w] k v w show ?thesis by blast
qed

subsection \<open>C3: the end-to-end scenario\<close>

text \<open>
  C3, as written. The scenario: vector list \<open>[A, B, C]\<close>, keyword list \<open>[B, D]\<close>, \<open>k = 60\<close>.
  The claim fails: \<open>A\<close> (rank 0 of the vector list) scores \<open>1/61\<close> and \<open>D\<close>
  (rank 1 of the keyword list) scores \<open>1/62\<close>, so they are not tied, and \<open>B\<close> scores
  \<open>1/62 + 1/61 = 123/3782\<close>, which is below 0.032796.
\<close>

theorem end_to_end_scenario_counterexample:
  "fusedScore 60 exampleVector exampleKeyword ''A'' = Some (1 / 61)
   \<and> fusedScore 60 exampleVector exampleKeyword ''D'' = Some (1 / 62)
   \<and> fusedScore 60 exampleVector exampleKeyword ''A'' \<noteq> fusedScore 60 exampleVector exampleKeyword ''D''
   \<and> fusedScore 60 exampleVector exampleKeyword ''B'' = Some (123 / 3782)
   \<and> (123 / 3782 :: number) < 32796 / 1000000"
  by (simp add: fusedScore_def sortByScore_def fuse_def
        exampleVector_def exampleKeyword_def rrfScore_def Map_get_def)

text \<open>
  C3 (amended). The fused order is \<open>B\<close> (0.032522...), \<open>A\<close> (0.016393...),
  \<open>D\<close> (0.016129...), \<open>C\<close> (0.015873...), with strictly decreasing scores.
\<close>

theorem end_to_end_scenario:
  "map (\<lambda>a. (fst a, score (snd a))) (sortedResults 60 10 exampleVector exampleKeyword)
     = [(''B'', 1 / 62 + 1 / 61), (''A'', 1 / 61), (''D'', 1 / 62), (''C'', 1 / 63)]
   \<and> (32522 / 1000000 < (1 / 62 + 1 / 61 :: number) \<and> (1 / 62 + 1 / 61 :: number) < 32523 / 1000000)
   \<and> (16393 / 1000000 < (1 / 61 :: number) \<and> (1 / 61 :: number) < 16394 / 1000000)
   \<and> (16129 / 1000000 < (1 / 62 :: number) \<and> (1 / 62 :: number) < 16130 / 1000000)
   \<and> (15873 / 1000000 < (1 / 63 :: number) \<and> (1 / 63 :: number) < 15874 / 1000000)"
  by (simp add: sortedResults_def slice0_def toInteger_def sortByScore_def fuse_def
        exampleVector_def exampleKeyword_def rrfScore_def Map_get_def)

subsection \<open>C4: determinism and the tie-break\<close>

text \<open>
  C4. In every arithmetic of the host, the doubles of the code among them: the fused
  ordering, identifiers and fused scores, is the same for any two pairs of lists with
  the same identifiers in the same positions, for the same \<open>k\<close> and limit. Ties are
  resolved by the order in which identifiers are first met, the vector list before the
  keyword list and each list from its first position: for every score \<open>s\<close>, the
  identifiers whose fused score in that arithmetic is \<open>s\<close> stand in the result in that
  order (the slice keeps the first of them). The result is in descending order of score,
  and the map holds the identifiers in first-met order.
\<close>

theorem fusion_tie_break:
  fixes ar :: "'s::linorder Arithmetic"
  shows "(\<forall>s. prefix (map fst (filter (\<lambda>a. h_score (snd a) = s) (sortedResultsWith ar k lmt vs ks)))
              (filter (\<lambda>x. fusedScoreWith ar k vs ks x = Some s)
                 (firstSeen (map v_id vs @ map k_id ks))))
   \<and> sorted_wrt (\<lambda>a b. h_score (snd b) \<le> h_score (snd a)) (sortedResultsWith ar k lmt vs ks)
   \<and> map fst (fuseWith ar k vs ks) = firstSeen (map v_id vs @ map k_id ks)
   \<and> (\<forall>(vs' :: VectorRow list) (ks' :: KeywordRow list). map v_id vs' = map v_id vs \<and> map k_id ks' = map k_id ks \<longrightarrow>
         ranking (sortedResultsWith ar k lmt vs' ks') = ranking (sortedResultsWith ar k lmt vs ks))"
proof (intro conjI allI impI)
  show "map fst (fuseWith ar k vs ks) = firstSeen (map v_id vs @ map k_id ks)"
    by (rule keys_fuseWith)
next
  fix s
  obtain n where n: "sortedResultsWith ar k lmt vs ks = take n (sortByScoreWith (fuseWith ar k vs ks))"
    unfolding sortedResultsWith_def using slice0_take by blast
  have d: "distinct (map fst (fuseWith ar k vs ks))"
    by (simp only: keys_fuseWith distinct_firstSeen)
  have "prefix (filter (\<lambda>a. h_score (snd a) = s) (take n (sortByScoreWith (fuseWith ar k vs ks))))
          (filter (\<lambda>a. h_score (snd a) = s) (sortByScoreWith (fuseWith ar k vs ks)))"
    by (rule filter_mono_prefix[OF take_is_prefix])
  then have "prefix (filter (\<lambda>a. h_score (snd a) = s) (sortedResultsWith ar k lmt vs ks))
                  (filter (\<lambda>a. h_score (snd a) = s) (fuseWith ar k vs ks))"
    by (simp add: n sortByScoreWith_def sortDesc_stable)
  then have "prefix (map fst (filter (\<lambda>a. h_score (snd a) = s) (sortedResultsWith ar k lmt vs ks)))
                  (map fst (filter (\<lambda>a. h_score (snd a) = s) (fuseWith ar k vs ks)))"
    by (rule map_mono_prefix)
  then show "prefix (map fst (filter (\<lambda>a. h_score (snd a) = s) (sortedResultsWith ar k lmt vs ks)))
              (filter (\<lambda>x. fusedScoreWith ar k vs ks x = Some s)
                 (firstSeen (map v_id vs @ map k_id ks)))"
    by (simp add: keys_filter_h_score[OF d] keys_fuseWith fusedScoreWith_def)
next
  obtain n where n: "sortedResultsWith ar k lmt vs ks = take n (sortByScoreWith (fuseWith ar k vs ks))"
    unfolding sortedResultsWith_def using slice0_take by blast
  show "sorted_wrt (\<lambda>a b. h_score (snd b) \<le> h_score (snd a)) (sortedResultsWith ar k lmt vs ks)"
    unfolding n sortByScoreWith_def by (rule sorted_wrt_take[OF sortDesc_descending])
next
  fix vs' :: "VectorRow list" and ks' :: "KeywordRow list"
  assume "map v_id vs' = map v_id vs \<and> map k_id ks' = map k_id ks"
  then show "ranking (sortedResultsWith ar k lmt vs' ks') = ranking (sortedResultsWith ar k lmt vs ks)"
    by (simp add: ranking_sortedResultsWith)
qed

theorem fusion_tie_break_witness:
  "ranking (sortedResultsWith doubleArithmetic 60 10 tieVector tieKeyword)
     = [(''A'', Finite (4725088133634619 / 288230376151711744)), (''D'', Finite (4725088133634619 / 288230376151711744))]
   \<and> ranking (sortedResultsWith doubleArithmetic 9 10 roundingVector roundingKeyword)
     = [(''Y'', Finite (3002399751580331 / 18014398509481984)),
        (''X'', Finite (6004799503160661 / 36028797018963968)),
        (''v0'', Finite (3602879701896397 / 36028797018963968)),
        (''v1'', Finite (3275345183542179 / 36028797018963968)),
        (''w1'', Finite (3275345183542179 / 36028797018963968)),
        (''v3'', Finite (1385722962267845 / 18014398509481984)),
        (''v4'', Finite (2573485501354569 / 36028797018963968))]
   \<and> firstSeen (map v_id roundingVector @ map k_id roundingKeyword)
     = [''v0'', ''v1'', ''X'', ''v3'', ''v4'', ''Y'', ''w1'']
   \<and> prefix (map fst (filter (\<lambda>a. h_score (snd a) = Finite (3275345183542179 / 36028797018963968))
                (sortedResultsWith doubleArithmetic 9 10 roundingVector roundingKeyword)))
        (filter (\<lambda>x. fusedScoreWith doubleArithmetic 9 roundingVector roundingKeyword x
                        = Some (Finite (3275345183542179 / 36028797018963968)))
           (firstSeen (map v_id roundingVector @ map k_id roundingKeyword)))
   \<and> map v_id rescoredVector = map v_id roundingVector
   \<and> ranking (sortedResultsWith doubleArithmetic 9 10 rescoredVector roundingKeyword)
     = ranking (sortedResultsWith doubleArithmetic 9 10 roundingVector roundingKeyword)"
proof -
  note t = fusion_tie_break[where ar = doubleArithmetic and k = 9 and lmt = 10
      and vs = roundingVector and ks = roundingKeyword]
  have f: "firstSeen (map v_id roundingVector @ map k_id roundingKeyword)
     = [''v0'', ''v1'', ''X'', ''v3'', ''v4'', ''Y'', ''w1'']"
    by (simp add: roundingVector_def roundingKeyword_def)
  have i: "map v_id rescoredVector = map v_id roundingVector"
    by (simp add: rescoredVector_def roundingVector_def)
  from t have p: "prefix (map fst (filter (\<lambda>a. h_score (snd a) = Finite (3275345183542179 / 36028797018963968))
                (sortedResultsWith doubleArithmetic 9 10 roundingVector roundingKeyword)))
        (filter (\<lambda>x. fusedScoreWith doubleArithmetic 9 roundingVector roundingKeyword x
                        = Some (Finite (3275345183542179 / 36028797018963968)))
           (firstSeen (map v_id roundingVector @ map k_id roundingKeyword)))"
    by blast
  from t i have r: "ranking (sortedResultsWith doubleArithmetic 9 10 rescoredVector roundingKeyword)
     = ranking (sortedResultsWith doubleArithmetic 9 10 roundingVector roundingKeyword)"
    by blast
  from tie_double rounding_double f p i r show ?thesis by blast
qed

subsection \<open>C5: the limit 0\<close>

text \<open>
  C5, as written, fails: \<^verbatim>\<open>options.limit || 10\<close> turns the limit 0 into 10. With
  one vector candidate the search with \<open>limit = 0\<close> sends both hydration queries and
  returns the entity.
\<close>

theorem zero_limit_counterexample:
  "fst (hybridSearchWithRRF exampleHost (onGraph graphA (candidateClient [\<lparr>v_id = ''A'', v_entityType = ''person'', v_vectorScore = 9 / 10\<rparr>] []))
          [] ''A'' (noOptions\<lparr>limit := Some 0\<rparr>))
     = [VectorCall 20 [], KeywordCall ''A'' 20, EntityCall [''A''], RelationCall [''A'']]
   \<and> (\<exists>res. snd (hybridSearchWithRRF exampleHost (onGraph graphA (candidateClient [\<lparr>v_id = ''A'', v_entityType = ''person'', v_vectorScore = 9 / 10\<rparr>] []))
          [] ''A'' (noOptions\<lparr>limit := Some 0\<rparr>)) = Inr res
        \<and> map name (entities res) = [''A''] \<and> total res = 1)"
  by (simp add: hybridSearchWithRRF_def Let_def orDefault_def noOptions_def onGraph_def candidateClient_def
      sortedResults_def slice0_def toInteger_def sortByScore_def fuse_def rrfScore_def Map_get_def
      graphA_def nodeA_def entityStatement_def relationStatement_def entityRow_def toEntity_def)

text \<open>
  C5 (amended). With \<open>limit = 0\<close> the hybrid search runs with the default limit 10, each
  ranker being asked for 20 candidates. When both ranker lists are empty the result is
  empty (no entities, no relations, total 0) and only the two ranker queries are sent;
  when one of them is not, the hydration query for the fused names is sent.
\<close>

theorem zero_limit_is_default:
  assumes "limit options = Some 0"
  shows "(vectorQuery neo4j 20 qv = Inr [] \<and> keywordQuery neo4j qt 20 = Inr [] \<longrightarrow>
            hybridSearchWithRRF host neo4j qv qt options
              = ([VectorCall 20 qv, KeywordCall qt 20], Inr emptyResult))
       \<and> (\<forall>vs ks. vectorQuery neo4j 20 qv = Inr vs \<and> keywordQuery neo4j qt 20 = Inr ks
              \<and> (vs \<noteq> [] \<or> ks \<noteq> []) \<longrightarrow>
            EntityCall (map fst (sortedResults (orDefault (rrfK options) 60) 10 vs ks))
              \<in> set (fst (hybridSearchWithRRF host neo4j qv qt options)))"
proof (intro conjI allI impI)
  assume "vectorQuery neo4j 20 qv = Inr [] \<and> keywordQuery neo4j qt 20 = Inr []"
  then show "hybridSearchWithRRF host neo4j qv qt options
              = ([VectorCall 20 qv, KeywordCall qt 20], Inr emptyResult)"
    using assms by (simp add: hybridSearchWithRRF_def orDefault_def sortedResults_10_Nil_iff)
next
  fix vs ks
  assume a: "vectorQuery neo4j 20 qv = Inr vs \<and> keywordQuery neo4j qt 20 = Inr ks
              \<and> (vs \<noteq> [] \<or> ks \<noteq> [])"
  then have "sortedResults (orDefault (rrfK options) 60) 10 vs ks \<noteq> []"
    by (simp add: sortedResults_10_Nil_iff)
  then show "EntityCall (map fst (sortedResults (orDefault (rrfK options) 60) 10 vs ks))
              \<in> set (fst (hybridSearchWithRRF host neo4j qv qt options))"
    using assms a
    by (auto simp: hybridSearchWithRRF_def Let_def orDefault_def[of "Some 0"] split: sum.splits)
qed

theorem zero_limit_is_default_witness:
  "hybridSearchWithRRF exampleHost (candidateClient [] []) [] ''A'' (noOptions\<lparr>limit := Some 0\<rparr>)
     = ([VectorCall 20 [], KeywordCall ''A'' 20], Inr emptyResult)
   \<and> EntityCall (map fst (sortedResults 60 10 tieVector []))
        \<in> set (fst (hybridSearchWithRRF exampleHost (candidateClient tieVector []) [] ''A''
                     (noOptions\<lparr>limit := Some 0\<rparr>)))"
proof -
  have l: "limit (noOptions\<lparr>limit := Some 0\<rparr>) = Some 0" by simp
  have e: "vectorQuery (candidateClient [] []) 20 [] = Inr []
      \<and> keywordQuery (candidateClient [] []) ''A'' 20 = Inr []"
    by (simp add: candidateClient_def)
  have n: "vectorQuery (candidateClient tieVector []) 20 [] = Inr tieVector
      \<and> keywordQuery (candidateClient tieVector []) ''A'' 20 = Inr []
      \<and> (tieVector \<noteq> [] \<or> [] \<noteq> ([] :: KeywordRow list))"
    by (simp add: candidateClient_def tieVector_def)
  have k: "orDefault (rrfK (noOptions\<lparr>limit := Some 0\<rparr>)) 60 = 60"
    by (simp add: noOptions_def orDefault_def)
  from zero_limit_is_default[OF l, of "candidateClient [] []" "[]" "''A''" exampleHost,
      THEN conjunct1, rule_format, OF e]
    zero_limit_is_default[OF l, of "candidateClient tieVector []" "[]" "''A''" exampleHost,
      THEN conjunct2, rule_format, OF n] k
  show ?thesis by simp
qed

subsection \<open>C6: the lexical scoring rule\<close>




subsection \<open>C7: relations among the returned entities\<close>

text \<open>
  Where every relationship in force joins two visible nodes of the graph, the relation
  rows have their ends among the entity rows.
\<close>

lemma relationStatement_contained:
  assumes "\<forall>r \<in> set (relationships g). rs_validTo r = None \<longrightarrow>
             source r \<in> set (nodes g) \<and> target r \<in> set (nodes g)
             \<and> n_validTo (source r) = None \<and> n_validTo (target r) = None"
  shows "\<forall>row \<in> set (relationStatement g names).
           fromName row \<in> e_name ` set (entityStatement g names)
           \<and> toName row \<in> e_name ` set (entityStatement g names)"
proof
  fix row assume "row \<in> set (relationStatement g names)"
  then obtain r where r: "r \<in> set (relationships g)" "n_name (source r) \<in> set names"
    "n_name (target r) \<in> set names" "rs_validTo r = None" "row = relationRow r"
    by (auto simp: relationStatement_def)
  with assms have v: "source r \<in> set (nodes g)" "target r \<in> set (nodes g)"
    "n_validTo (source r) = None" "n_validTo (target r) = None" by auto
  have "entityRow (source r) \<in> set (entityStatement g names)"
    "entityRow (target r) \<in> set (entityStatement g names)"
    using r v by (auto simp: entityStatement_def)
  then have "e_name (entityRow (source r)) \<in> e_name ` set (entityStatement g names)"
    "e_name (entityRow (target r)) \<in> e_name ` set (entityStatement g names)"
    by (auto intro: imageI)
  then show "fromName row \<in> e_name ` set (entityStatement g names)
           \<and> toName row \<in> e_name ` set (entityStatement g names)"
    using r(5) by (simp add: relationRow_def entityRow_def)
qed

text \<open>
  C7. The relation statement checks the names of the two ends and the relation's own
  \<^verbatim>\<open>validTo\<close>, not the \<^verbatim>\<open>validTo\<close> of the ends. On a graph where a relationship in force
  ends in the soft-deleted node \<open>B\<close>, and \<open>A\<close> and \<open>B\<close> are both candidates, the search
  returns the entity \<open>A\<close> alone together with the relation from \<open>A\<close> to \<open>B\<close>: an end of a
  returned relation is not among the returned entities.
\<close>

theorem relation_endpoint_not_returned:
  "\<exists>res. snd (hybridSearchWithRRF exampleHost (onGraph graphDangling (candidateClient twoVector []))
               [] ''q'' noOptions) = Inr res
     \<and> map name (entities res) = [''A'']
     \<and> relations res = [\<lparr>rel_from = ''A'', rel_to = ''B'', relationType = ''knows''\<rparr>]
     \<and> ''B'' \<notin> set (map name (entities res))"
proof -
  let ?c = "onGraph graphDangling (candidateClient twoVector [])"
  have 1: "vectorQuery ?c \<lfloor>orDefault (limit noOptions) 10 * 2\<rfloor> [] = Inr twoVector"
    by (simp add: noOptions_defaults candidate_queries take_examples)
  have 2: "keywordQuery ?c ''q'' \<lfloor>orDefault (limit noOptions) 10 * 2\<rfloor> = Inr []"
    by (simp add: noOptions_defaults candidate_queries)
  have 3: "sortedResults (orDefault (rrfK noOptions) 60) (orDefault (limit noOptions) 10) twoVector [] \<noteq> []"
    by (simp add: noOptions_defaults twoVector_sorted)
  have 4: "entityQuery ?c (map fst (sortedResults (orDefault (rrfK noOptions) 60)
             (orDefault (limit noOptions) 10) twoVector [])) = Inr [entityRow nodeA]"
    by (simp add: noOptions_defaults twoVector_names candidate_queries entityStatement_def
        graphDangling_def nodeA_def deletedB_def)
  have 5: "relationQuery ?c (map fst (sortedResults (orDefault (rrfK noOptions) 60)
             (orDefault (limit noOptions) 10) twoVector []))
           = Inr [\<lparr>fromName = ''A'', toName = ''B'', row_relationType = ''knows''\<rparr>]"
    by (simp add: noOptions_defaults twoVector_names candidate_queries relationStatement_def
        graphDangling_def nodeA_def deletedB_def relationRow_def)
  show ?thesis
    by (simp add: hybrid_hydrated[OF 1 2 3 4 5] toEntity_def entityRow_def nodeA_def toRelation_def)
qed

subsection \<open>C8: the order of the returned entities\<close>

text \<open>
  C8. The entities of the result are the hydration rows in the order the store returns
  them (lemma \<open>hybrid_hydrated\<close>). With the nodes \<open>A\<close>, \<open>B\<close> scanned in this order and the
  fused order \<open>B\<close>, \<open>A\<close>, the search returns \<open>A\<close> before \<open>B\<close>.
\<close>

theorem entities_in_store_order:
  "map fst (sortedResults 60 10 vectorBA []) = [''B'', ''A'']
   \<and> (\<exists>res. snd (hybridSearchWithRRF exampleHost (onGraph graphAB (candidateClient vectorBA []))
               [] ''q'' noOptions) = Inr res
        \<and> map name (entities res) = [''A'', ''B''])"
proof -
  let ?c = "onGraph graphAB (candidateClient vectorBA [])"
  have 1: "vectorQuery ?c \<lfloor>orDefault (limit noOptions) 10 * 2\<rfloor> [] = Inr vectorBA"
    by (simp add: noOptions_defaults candidate_queries take_examples)
  have 2: "keywordQuery ?c ''q'' \<lfloor>orDefault (limit noOptions) 10 * 2\<rfloor> = Inr []"
    by (simp add: noOptions_defaults candidate_queries)
  have 3: "sortedResults (orDefault (rrfK noOptions) 60) (orDefault (limit noOptions) 10) vectorBA [] \<noteq> []"
    using vectorBA_names by (auto simp: noOptions_defaults)
  have 4: "entityQuery ?c (map fst (sortedResults (orDefault (rrfK noOptions) 60)
             (orDefault (limit noOptions) 10) vectorBA [])) = Inr [entityRow nodeA, entityRow visibleB]"
    by (simp add: noOptions_defaults vectorBA_names candidate_queries entityStatement_def
        graphAB_def nodeA_def visibleB_def)
  have 5: "relationQuery ?c (map fst (sortedResults (orDefault (rrfK noOptions) 60)
             (orDefault (limit noOptions) 10) vectorBA [])) = Inr []"
    by (simp add: noOptions_defaults vectorBA_names candidate_queries relationStatement_def
        graphAB_def)
  show ?thesis
    by (simp add: vectorBA_names hybrid_hydrated[OF 1 2 3 4 5] toEntity_def entityRow_def
        nodeA_def visibleB_def)
qed

subsection \<open>C9: an observations field that does not parse\<close>

text \<open>
  C9. When the store answers the four queries of a hybrid search, the search returns a
  result with one entity per hydration row, in the order of the rows, whatever
  \<^verbatim>\<open>JSON.parse\<close> does; an entity whose observations field does not parse has the empty
  list as its observations. The helper \<^verbatim>\<open>parseObservations\<close> of the tools does the same.
\<close>

theorem observation_parse_failure_recovered:
  assumes "vectorQuery neo4j \<lfloor>orDefault (limit options) 10 * 2\<rfloor> qv = Inr vs"
    and "keywordQuery neo4j qt \<lfloor>orDefault (limit options) 10 * 2\<rfloor> = Inr ks"
    and "sortedResults (orDefault (rrfK options) 60) (orDefault (limit options) 10) vs ks \<noteq> []"
    and "entityQuery neo4j
           (map fst (sortedResults (orDefault (rrfK options) 60) (orDefault (limit options) 10) vs ks))
         = Inr rows"
    and "relationQuery neo4j
           (map fst (sortedResults (orDefault (rrfK options) 60) (orDefault (limit options) 10) vs ks))
         = Inr rels"
  shows "(\<exists>res. snd (hybridSearchWithRRF host neo4j qv qt options) = Inr res
            \<and> map name (entities res) = map e_name rows
            \<and> total res = length rows
            \<and> (\<forall>i < length rows.
                  JSON_parse host (e_observations (rows ! i)) = None \<longrightarrow>
                  observations (entities res ! i) = JArray []))
       \<and> (\<forall>s. JSON_parse host s = None \<longrightarrow> parseObservations host (Some s) = JArray [])"
proof -
  have "snd (hybridSearchWithRRF host neo4j qv qt options)
      = Inr \<lparr>entities = map (toEntity host) rows, relations = map toRelation rels,
             total = length rows\<rparr>"
    using assms by (simp add: hybridSearchWithRRF_def Let_def)
  moreover have "map name (map (toEntity host) rows) = map e_name rows"
    by (simp add: toEntity_def)
  moreover have "\<forall>i < length rows.
      JSON_parse host (e_observations (rows ! i)) = None \<longrightarrow>
      observations (map (toEntity host) rows ! i) = JArray []"
    by (simp add: toEntity_def tryParseObservations_def)
  moreover have "\<forall>s. JSON_parse host s = None \<longrightarrow> parseObservations host (Some s) = JArray []"
    by (simp add: parseObservations_def)
  ultimately show ?thesis by simp
qed

theorem observation_parse_failure_recovered_witness:
  "\<exists>res. snd (hybridSearchWithRRF exampleHost
              (onGraph graphCorrupt
                 (candidateClient twoVector []))
              [] ''q'' noOptions) = Inr res
     \<and> map name (entities res) = [''A'', ''B'']
     \<and> total res = 2
     \<and> JSON_parse exampleHost (n_observations corruptNode) = None
     \<and> observations (entities res ! 1) = JArray []"
proof -
  let ?vs = "twoVector"
  let ?c = "onGraph graphCorrupt (candidateClient ?vs [])"
  let ?rows = "[entityRow nodeA, entityRow corruptNode]"
  have o: "orDefault (limit noOptions) 10 = 10" "orDefault (rrfK noOptions) 60 = 60"
    by (simp_all add: noOptions_def orDefault_def)
  have 1: "vectorQuery ?c \<lfloor>orDefault (limit noOptions) 10 * 2\<rfloor> [] = Inr ?vs"
    by (simp add: o onGraph_def candidateClient_def twoVector_def)
  have 2: "keywordQuery ?c ''q'' \<lfloor>orDefault (limit noOptions) 10 * 2\<rfloor> = Inr []"
    by (simp add: o onGraph_def candidateClient_def)
  have 3: "sortedResults (orDefault (rrfK noOptions) 60) (orDefault (limit noOptions) 10) ?vs [] \<noteq> []"
    by (simp add: o twoVector_sorted)
  have 4: "entityQuery ?c
      (map fst (sortedResults (orDefault (rrfK noOptions) 60) (orDefault (limit noOptions) 10) ?vs []))
      = Inr ?rows"
    by (simp add: o twoVector_sorted onGraph_def entityStatement_def graphCorrupt_def nodeA_def corruptNode_def)
  have 5: "relationQuery ?c
      (map fst (sortedResults (orDefault (rrfK noOptions) 60) (orDefault (limit noOptions) 10) ?vs []))
      = Inr []"
    by (simp add: o twoVector_sorted onGraph_def relationStatement_def graphCorrupt_def)
  have p: "JSON_parse exampleHost (n_observations corruptNode) = None"
    by (simp add: exampleHost_def corruptNode_def)
  from observation_parse_failure_recovered[OF 1 2 3 4 5, of exampleHost, THEN conjunct1]
  obtain res where r: "snd (hybridSearchWithRRF exampleHost ?c [] ''q'' noOptions) = Inr res"
    "map name (entities res) = map e_name ?rows" "total res = length ?rows"
    "\<forall>i < length ?rows. JSON_parse exampleHost (e_observations (?rows ! i)) = None \<longrightarrow>
        observations (entities res ! i) = JArray []" by blast
  from r(4)[rule_format, of 1] p have "observations (entities res ! 1) = JArray []"
    by (simp add: entityRow_def)
  moreover from r(2) have "map name (entities res) = [''A'', ''B'']"
    by (simp add: entityRow_def nodeA_def corruptNode_def)
  ultimately show ?thesis using r(1,3) p by auto
qed

subsection \<open>C10: zero-valued options\<close>

text \<open>
  C10. For both search functions, passing 0 for \<open>limit\<close>, \<open>rrfK\<close> or \<open>minSimilarity\<close>
  gives the same queries and the same result as leaving the option out, and as passing
  the defaults 10, 60 and 0.6.
\<close>

theorem zero_options_fall_back:
  "hybridSearchWithRRF host neo4j qv qt (options\<lparr>limit := Some 0\<rparr>)
     = hybridSearchWithRRF host neo4j qv qt (options\<lparr>limit := None\<rparr>)
   \<and> hybridSearchWithRRF host neo4j qv qt (options\<lparr>limit := Some 0\<rparr>)
     = hybridSearchWithRRF host neo4j qv qt (options\<lparr>limit := Some 10\<rparr>)
   \<and> hybridSearchWithRRF host neo4j qv qt (options\<lparr>rrfK := Some 0\<rparr>)
     = hybridSearchWithRRF host neo4j qv qt (options\<lparr>rrfK := None\<rparr>)
   \<and> hybridSearchWithRRF host neo4j qv qt (options\<lparr>rrfK := Some 0\<rparr>)
     = hybridSearchWithRRF host neo4j qv qt (options\<lparr>rrfK := Some 60\<rparr>)
   \<and> hybridSearchWithRRF host neo4j qv qt (options\<lparr>minSimilarity := Some 0\<rparr>)
     = hybridSearchWithRRF host neo4j qv qt (options\<lparr>minSimilarity := None\<rparr>)
   \<and> hybridSearchWithRRF host neo4j qv qt (options\<lparr>minSimilarity := Some 0\<rparr>)
     = hybridSearchWithRRF host neo4j qv qt (options\<lparr>minSimilarity := Some (6 / 10)\<rparr>)
   \<and> vectorSearch host neo4j qv (options\<lparr>limit := Some 0\<rparr>)
     = vectorSearch host neo4j qv (options\<lparr>limit := None\<rparr>)
   \<and> vectorSearch host neo4j qv (options\<lparr>limit := Some 0\<rparr>)
     = vectorSearch host neo4j qv (options\<lparr>limit := Some 10\<rparr>)
   \<and> vectorSearch host neo4j qv (options\<lparr>minSimilarity := Some 0\<rparr>)
     = vectorSearch host neo4j qv (options\<lparr>minSimilarity := None\<rparr>)
   \<and> vectorSearch host neo4j qv (options\<lparr>minSimilarity := Some 0\<rparr>)
     = vectorSearch host neo4j qv (options\<lparr>minSimilarity := Some (6 / 10)\<rparr>)
   \<and> vectorSearch host neo4j qv (options\<lparr>rrfK := Some 0\<rparr>)
     = vectorSearch host neo4j qv (options\<lparr>rrfK := None\<rparr>)
   \<and> vectorSearch host neo4j qv (options\<lparr>rrfK := Some 0\<rparr>)
     = vectorSearch host neo4j qv (options\<lparr>rrfK := Some 60\<rparr>)"
  by (simp add: hybridSearchWithRRF_def vectorSearch_def orDefault_zero orDefault_default)

end
